theory Spec2Isabelle
  imports Complex_Main "HOL-Library.Word"
begin

section \<open>Strings\<close>

text \<open>
  A JavaScript string is a sequence of UTF-16 code units. Room identifiers, nicknames,
  connection identifiers, chat text and secret words are all such strings; the words of
  the pool are Hangul, so the model keeps the code units instead of bytes.
\<close>

type_synonym jstring = "16 word list"

text \<open>\<open>!s\<close> on a string: only the empty string is falsy.\<close>

definition truthy :: "jstring \<Rightarrow> bool" where
  "truthy s = (s \<noteq> [])"

text \<open>\<open>!v\<close> on a value of type \<open>string | null | undefined\<close>.\<close>

definition truthy_opt :: "jstring option \<Rightarrow> bool" where
  "truthy_opt v = (case v of None \<Rightarrow> False | Some s \<Rightarrow> truthy s)"

text \<open>
  \<open>String.prototype.trim\<close> removes the ECMAScript WhiteSpace and LineTerminator code
  points from both ends: TAB, LF, VT, FF, CR, SPACE, NBSP, U+1680, U+2000..U+200A,
  U+2028, U+2029, U+202F, U+205F, U+3000 and U+FEFF.
\<close>

definition is_space :: "16 word \<Rightarrow> bool" where
  "is_space u = (u \<in> set [0x09, 0x0A, 0x0B, 0x0C, 0x0D, 0x20, 0xA0, 0x1680,
      0x2000, 0x2001, 0x2002, 0x2003, 0x2004, 0x2005, 0x2006, 0x2007, 0x2008, 0x2009,
      0x200A, 0x2028, 0x2029, 0x202F, 0x205F, 0x3000, 0xFEFF])"

definition trim :: "jstring \<Rightarrow> jstring" where
  "trim s = rev (dropWhile is_space (rev (dropWhile is_space s)))"

section \<open>Hint generator\<close>

text \<open>The table \<open>CHO\<close>: the nineteen leading consonants, each a one-unit string.\<close>

definition CHO :: "jstring list" where
  "CHO = [[0x3131], [0x3132], [0x3134], [0x3137], [0x3138], [0x3139], [0x3141],
          [0x3142], [0x3143], [0x3145], [0x3146], [0x3147], [0x3148], [0x3149],
          [0x314A], [0x314B], [0x314C], [0x314D], [0x314E]]"

definition is_lead_surrogate :: "16 word \<Rightarrow> bool" where
  "is_lead_surrogate u = (0xD800 \<le> u \<and> u \<le> 0xDBFF)"

definition is_trail_surrogate :: "16 word \<Rightarrow> bool" where
  "is_trail_surrogate u = (0xDC00 \<le> u \<and> u \<le> 0xDFFF)"

text \<open>
  \<open>Array.from(word)\<close> iterates a string by code points: a lead surrogate followed by
  a trail surrogate is one element of two units, every other unit is an element alone.
\<close>

fun array_from :: "jstring \<Rightarrow> jstring list" where
  "array_from [] = []"
| "array_from [u] = [[u]]"
| "array_from (u # v # us) =
     (if is_lead_surrogate u \<and> is_trail_surrogate v
      then [u, v] # array_from us
      else [u] # array_from (v # us))"

text \<open>
  The callback of \<open>map\<close>. \<open>charCodeAt(0)\<close> is the first code unit; on the empty
  string it is NaN, both comparisons fail, the index is NaN and \<open>CHO[NaN] ?? ch\<close> is
  \<open>ch\<close>. \<open>CHO[choIndex] ?? ch\<close> falls back to \<open>ch\<close> outside the table.
\<close>

definition hint_of_char :: "jstring \<Rightarrow> jstring" where
  "hint_of_char ch =
     (case ch of
        [] \<Rightarrow> ch
      | code # _ \<Rightarrow>
          if code < 0xAC00 \<or> code > 0xD7A3 then ch
          else
            let base = unat code - 0xAC00;
                choIndex = base div (21 * 28)
            in if choIndex < length CHO then CHO ! choIndex else ch)"

definition makeChosungHint :: "jstring \<Rightarrow> jstring" where
  "makeChosungHint word = concat (map hint_of_char (array_from word))"

subsection \<open>The hint generator as the specification words it\<close>

text \<open>
  The specification speaks of the characters of the word and their code points. The
  code points of a string, and the string of a code point (\<open>String.fromCodePoint\<close>):
\<close>

fun code_points :: "jstring \<Rightarrow> nat list" where
  "code_points [] = []"
| "code_points [u] = [unat u]"
| "code_points (u # v # us) =
     (if is_lead_surrogate u \<and> is_trail_surrogate v
      then (0x10000 + (unat u - 0xD800) * 0x400 + (unat v - 0xDC00)) # code_points us
      else unat u # code_points (v # us))"

definition from_code_point :: "nat \<Rightarrow> jstring" where
  "from_code_point cp =
     (if cp < 0x10000 then [of_nat cp]
      else [of_nat (0xD800 + (cp - 0x10000) div 0x400),
            of_nat (0xDC00 + (cp - 0x10000) mod 0x400)])"

text \<open>
  One character of the hint: inside the block of composable syllables
  U+AC00..U+D7A3 the symbol of the table at \<open>floor((code - 0xAC00) / 588)\<close>, outside
  the block the character itself.
\<close>

definition hint_symbol_spec :: "nat \<Rightarrow> jstring" where
  "hint_symbol_spec cp =
     (if 0xAC00 \<le> cp \<and> cp \<le> 0xD7A3 then CHO ! ((cp - 0xAC00) div 588)
      else from_code_point cp)"

definition hint_spec :: "jstring \<Rightarrow> jstring" where
  "hint_spec word = concat (map hint_symbol_spec (code_points word))"

section \<open>Data model\<close>

text \<open>ASCII literals of the source, as code units.\<close>

definition ascii :: "string \<Rightarrow> jstring" where
  "ascii s = map of_char s"

text \<open>
  \<open>Player\<close> and \<open>RoomState\<close>. The fields \<open>id\<close> and \<open>round\<close> carry a suffix, since
  both names are constants of HOL. \<open>score\<close> and \<open>round\<close> are JavaScript numbers that
  only ever hold small integers (they grow by 10 and by 1), modelled as \<open>int\<close>.
  \<open>players\<close> is a plain object used as a dictionary: an association list in insertion
  order, which is the order of \<open>Object.keys\<close> and \<open>Object.values\<close> for keys that are
  not array indices (connection identifiers are the transport's 20-character tokens).
  A timer handle is the number under which the callback is pending.
\<close>

record Player =
  id_player :: jstring
  nickname :: jstring
  score :: int

record RoomState =
  id_room :: jstring
  players :: "(jstring \<times> Player) list"
  drawerId :: "jstring option"
  currentWord :: "jstring option"
  round_no :: int
  maxRounds :: int
  category :: jstring
  roundActive :: bool
  timerId :: "nat option"
  hintTimerId :: "nat option"

text \<open>Reading, assigning and deleting a property of the \<open>players\<close> object.\<close>

definition obj_get :: "(jstring \<times> 'a) list \<Rightarrow> jstring \<Rightarrow> 'a option" where
  "obj_get ps k = map_of ps k"

fun obj_set :: "jstring \<Rightarrow> 'a \<Rightarrow> (jstring \<times> 'a) list \<Rightarrow> (jstring \<times> 'a) list" where
  "obj_set k v [] = [(k, v)]"
| "obj_set k v (p # ps) = (if fst p = k then (k, v) # ps else p # obj_set k v ps)"

definition obj_delete :: "jstring \<Rightarrow> (jstring \<times> 'a) list \<Rightarrow> (jstring \<times> 'a) list" where
  "obj_delete k ps = filter (\<lambda>p. fst p \<noteq> k) ps"

definition obj_keys :: "(jstring \<times> 'a) list \<Rightarrow> jstring list" where
  "obj_keys ps = map fst ps"

text \<open>\<open>xs[i]\<close>: \<open>undefined\<close> outside the array.\<close>

definition elem_at :: "'a list \<Rightarrow> nat \<Rightarrow> 'a option" where
  "elem_at xs i = (if i < length xs then Some (xs ! i) else None)"

text \<open>\<open>Array.prototype.indexOf\<close>: the first position of the element, or -1.\<close>

fun indexOf :: "'a list \<Rightarrow> 'a \<Rightarrow> int" where
  "indexOf [] x = -1"
| "indexOf (y # ys) x =
     (if y = x then 0 else (let i = indexOf ys x in if i = -1 then -1 else i + 1))"

subsection \<open>Outbound notifications and the transport\<close>

datatype stroke = Stroke real real real real jstring real

datatype message =
    RoomStateMsg "Player list" "jstring option" int int jstring bool
  | SystemMessage jstring
  | RoundStarted int int "jstring option" int
  | WordForDrawer jstring
  | HintUpdated jstring
  | RoundEnded jstring int
  | ClearCanvas
  | AnswerResult bool jstring jstring jstring int
  | Chat jstring jstring bool
  | GameEnded "Player list"
  | Draw stroke

text \<open>
  What a handler asks of the transport, in order: \<open>io.to(room).emit\<close>,
  \<open>socket.to(room).emit\<close> (the sender and the room), \<open>socket.join\<close> and
  \<open>socket.leave\<close> (the connection and the room).
\<close>

datatype effect =
    Emit jstring message
  | Relay jstring jstring message
  | SocketJoin jstring jstring
  | SocketLeave jstring jstring

text \<open>The three closures handed to \<open>setTimeout\<close>, each closed over a room identifier.\<close>

datatype callback = HintTimer jstring | RoundTimer jstring | Cooldown jstring

text \<open>
  The module state: the two global maps \<open>rooms\<close> and \<open>socketRoomMap\<close>, the timers
  of the event loop that have not fired and were not cleared, the next fresh handle,
  and the effects sent to the transport so far.
\<close>

record Server =
  rooms :: "jstring \<rightharpoonup> RoomState"
  socketRoomMap :: "jstring \<rightharpoonup> jstring"
  timers :: "nat \<rightharpoonup> callback"
  nextTimer :: nat
  outbox :: "effect list"

definition init :: Server where
  "init = \<lparr>rooms = Map.empty, socketRoomMap = Map.empty, timers = Map.empty,
            nextTimer = 0, outbox = []\<rparr>"

definition emit :: "effect \<Rightarrow> Server \<Rightarrow> Server" where
  "emit e s = s\<lparr>outbox := outbox s @ [e]\<rparr>"

definition setTimeout :: "callback \<Rightarrow> Server \<Rightarrow> nat \<times> Server" where
  "setTimeout cb s =
     (nextTimer s,
      s\<lparr>timers := (timers s)(nextTimer s \<mapsto> cb), nextTimer := Suc (nextTimer s)\<rparr>)"

definition clearTimeout :: "nat \<Rightarrow> Server \<Rightarrow> Server" where
  "clearTimeout h s = s\<lparr>timers := (timers s)(h := None)\<rparr>"

text \<open>
  A room object is mutated through a reference; the model takes the record out of the
  registry, changes it, and stores it back under its key before anything reads the
  registry again.
\<close>

definition set_room :: "jstring \<Rightarrow> RoomState \<Rightarrow> Server \<Rightarrow> Server" where
  "set_room roomId room s = s\<lparr>rooms := (rooms s)(roomId \<mapsto> room)\<rparr>"

subsection \<open>Constants\<close>

definition ROUND_DURATION_SEC :: int where
  "ROUND_DURATION_SEC = 40"

text \<open>The Korean literals of the source, as code units.\<close>

definition anonymous_nick :: jstring where
  "anonymous_nick = [0xC775, 0xBA85]"

definition joined_suffix :: jstring where
  "joined_suffix = [0x0020, 0xB2D8, 0xC774, 0x0020, 0xC785, 0xC7A5, 0xD588, 0xC2B5,
                    0xB2C8, 0xB2E4, 0x002E]"

definition left_suffix :: jstring where
  "left_suffix = [0x0020, 0xB2D8, 0xC774, 0x0020, 0xD1F4, 0xC7A5, 0xD588, 0xC2B5,
                  0xB2C8, 0xB2E4, 0x002E]"

definition game_start_text :: jstring where
  "game_start_text = [0xAC8C, 0xC784, 0xC744, 0x0020, 0xC2DC, 0xC791, 0xD569, 0xB2C8,
                      0xB2E4, 0x0021]"

definition timeout_reason :: jstring where
  "timeout_reason = [0xC2DC, 0xAC04, 0xC774, 0x0020, 0xC885, 0xB8CC, 0xB418, 0xC5C8,
                     0xC2B5, 0xB2C8, 0xB2E4, 0x002E]"

definition correct_suffix :: jstring where
  "correct_suffix = [0x0020, 0xB2D8, 0xC774, 0x0020, 0xC815, 0xB2F5, 0xC744, 0x0020,
                     0xB9DE, 0xCDC4, 0xC2B5, 0xB2C8, 0xB2E4, 0x0021]"

definition unknown_nick :: jstring where
  "unknown_nick = [0xC54C, 0x0020, 0xC218, 0x0020, 0xC5C6, 0xC74C]"

definition drawer_left_reason :: jstring where
  "drawer_left_reason = [0xCD9C, 0xC81C, 0xC790, 0xAC00, 0x0020, 0xB098, 0xAC14, 0xC2B5,
                         0xB2C8, 0xB2E4, 0x002E, 0x0020, 0xB2E4, 0xC74C, 0x0020, 0xB77C,
                         0xC6B4, 0xB4DC, 0xB85C, 0x0020, 0xB118, 0xC5B4, 0xAC11, 0xB2C8,
                         0xB2E4, 0x002E]"

subsection \<open>Word provider\<close>

text \<open>
  \<open>WORD_POOL\<close> is an object literal, so \<open>WORD_POOL[category]\<close> also finds the
  properties inherited from \<open>Object.prototype\<close>. None of them is \<open>null\<close> or
  \<open>undefined\<close>, so \<open>??\<close> keeps them, and none has an element at the index drawn
  (a function has no indexed property; for \<open>__proto__\<close> the length is \<open>undefined\<close>
  and the index NaN): \<open>list[idx]\<close> is \<open>undefined\<close> there.
\<close>

datatype pool_entry = WordList "jstring list" | Inherited | Undefined

definition object_prototype_keys :: "jstring list" where
  "object_prototype_keys = map ascii
     [''constructor'', ''__defineGetter__'', ''__defineSetter__'', ''hasOwnProperty'',
      ''__lookupGetter__'', ''__lookupSetter__'', ''isPrototypeOf'',
      ''propertyIsEnumerable'', ''toString'', ''valueOf'', ''__proto__'',
      ''toLocaleString'']"

definition WORD_POOL :: "jstring \<Rightarrow> pool_entry" where
  "WORD_POOL key =
     (if key = ascii ''food'' then
        WordList [[0xC0AC, 0xACFC], [0xBC14, 0xB098, 0xB098], [0xD53C, 0xC790],
                  [0xD584, 0xBC84, 0xAC70]]
      else if key = ascii ''animal'' then
        WordList [[0xACE0, 0xC591, 0xC774], [0xAC15, 0xC544, 0xC9C0]]
      else if key = ascii ''object'' then
        WordList [[0xC9D1], [0xC790, 0xB3D9, 0xCC28], [0xBCC4], [0xAD6C, 0xB984],
                  [0xCEF5], [0xCC45]]
      else if key \<in> set object_prototype_keys then Inherited
      else Undefined)"

text \<open>
  \<open>Math.floor(Math.random() * list.length)\<close> is some index below the length (0 for
  an empty list). The draw of the environment is the parameter \<open>rnd\<close>, reduced
  modulo the length.
\<close>

definition getRandomWord :: "jstring \<Rightarrow> nat \<Rightarrow> jstring option" where
  "getRandomWord cat rnd =
     (let list = (case WORD_POOL cat of Undefined \<Rightarrow> WORD_POOL (ascii ''food'') | e \<Rightarrow> e)
      in case list of
           WordList ws \<Rightarrow>
             (let idx = (if length ws = 0 then 0 else rnd mod length ws) in elem_at ws idx)
         | Inherited \<Rightarrow> None
         | Undefined \<Rightarrow> None)"

section \<open>Operations\<close>

definition getOrCreateRoom :: "jstring \<Rightarrow> Server \<Rightarrow> RoomState \<times> Server" where
  "getOrCreateRoom roomId s =
     (case rooms s roomId of
        Some room \<Rightarrow> (room, s)
      | None \<Rightarrow>
          (let room = \<lparr>id_room = roomId, players = [], drawerId = None,
                       currentWord = None, round_no = 0, maxRounds = 5,
                       category = ascii ''food'', roundActive = False,
                       timerId = None, hintTimerId = None\<rparr>
           in (room, set_room roomId room s)))"

definition getPlayerList :: "RoomState \<Rightarrow> Player list" where
  "getPlayerList room = map snd (players room)"

text \<open>A handle is a Timeout object, always truthy; \<open>null\<close> is \<open>None\<close>.\<close>

definition clearRoomTimers :: "RoomState \<Rightarrow> Server \<Rightarrow> RoomState \<times> Server" where
  "clearRoomTimers room s =
     (let (room1, s1) =
            (case timerId room of
               Some h \<Rightarrow> (room\<lparr>timerId := None\<rparr>, clearTimeout h s)
             | None \<Rightarrow> (room, s))
      in case hintTimerId room1 of
           Some h \<Rightarrow> (room1\<lparr>hintTimerId := None\<rparr>, clearTimeout h s1)
         | None \<Rightarrow> (room1, s1))"

definition broadcastRoomState :: "jstring \<Rightarrow> Server \<Rightarrow> Server" where
  "broadcastRoomState roomId s =
     (case rooms s roomId of
        None \<Rightarrow> s
      | Some room \<Rightarrow>
          emit (Emit roomId (RoomStateMsg (getPlayerList room) (drawerId room)
                  (round_no room) (maxRounds room) (category room) (roundActive room))) s)"

definition chooseNextDrawerId :: "RoomState \<Rightarrow> jstring option" where
  "chooseNextDrawerId room =
     (let ids = obj_keys (players room) in
      if length ids = 0 then None
      else
        case drawerId room of
          None \<Rightarrow> elem_at ids 0
        | Some d \<Rightarrow>
            if \<not> truthy d then elem_at ids 0
            else
              let idx = indexOf ids d in
              if idx = -1 \<or> idx = int (length ids) - 1 then elem_at ids 0
              else elem_at ids (nat (idx + 1)))"

text \<open>The branch of \<open>startRound\<close> taken when the incremented counter exceeds \<open>maxRounds\<close>.\<close>

definition startRound_gameOver :: "jstring \<Rightarrow> RoomState \<Rightarrow> Server \<Rightarrow> Server" where
  "startRound_gameOver roomId room s =
     (let room1 = room\<lparr>roundActive := False, currentWord := None, drawerId := None\<rparr>;
          s1 = set_room roomId room1 s;
          s2 = emit (Emit roomId (GameEnded (getPlayerList room1))) s1;
          s3 = emit (Emit roomId ClearCanvas) s2;
          s4 = emit (Emit roomId (HintUpdated [])) s3
      in broadcastRoomState roomId s4)"

text \<open>The rest of \<open>startRound\<close>: a new round with the next drawer and a fresh word.\<close>

definition startRound_begin :: "jstring \<Rightarrow> nat \<Rightarrow> RoomState \<Rightarrow> Server \<Rightarrow> Server" where
  "startRound_begin roomId rnd room s =
     (let nextDrawerId = chooseNextDrawerId room;
          room1 = room\<lparr>drawerId := nextDrawerId,
                       currentWord := getRandomWord (category room) rnd,
                       roundActive := True\<rparr>;
          s1 = set_room roomId room1 s;
          s2 = emit (Emit roomId ClearCanvas) s1;
          s3 = emit (Emit roomId (HintUpdated [])) s2;
          s4 = emit (Emit roomId (RoundStarted (round_no room1) (maxRounds room1)
                       (drawerId room1) ROUND_DURATION_SEC)) s3;
          s5 = (case (drawerId room1, currentWord room1) of
                  (Some d, Some w) \<Rightarrow>
                    if truthy d \<and> truthy w then emit (Emit d (WordForDrawer w)) s4 else s4
                | _ \<Rightarrow> s4);
          s6 = broadcastRoomState roomId s5;
          (h, s7) = setTimeout (HintTimer roomId) s6;
          (t, s8) = setTimeout (RoundTimer roomId) s7
      in set_room roomId (room1\<lparr>hintTimerId := Some h, timerId := Some t\<rparr>) s8)"

definition startRound :: "jstring \<Rightarrow> nat \<Rightarrow> Server \<Rightarrow> Server" where
  "startRound roomId rnd s =
     (case rooms s roomId of
        None \<Rightarrow> s
      | Some room \<Rightarrow>
          if length (obj_keys (players room)) = 0 then s
          else
            let (room1, s1) = clearRoomTimers room s;
                room2 = room1\<lparr>round_no := round_no room1 + 1\<rparr>
            in if round_no room2 > maxRounds room2
               then startRound_gameOver roomId room2 s1
               else startRound_begin roomId rnd room2 s1)"

text \<open>The callback scheduled at half the round duration.\<close>

definition hintCallback :: "jstring \<Rightarrow> Server \<Rightarrow> Server" where
  "hintCallback roomId s =
     (case rooms s roomId of
        None \<Rightarrow> s
      | Some r \<Rightarrow>
          if \<not> roundActive r \<or> \<not> truthy_opt (currentWord r) then s
          else
            case currentWord r of
              None \<Rightarrow> s
            | Some w \<Rightarrow> emit (Emit roomId (HintUpdated (makeChosungHint w))) s)"

text \<open>The callback scheduled at the full round duration.\<close>

definition roundCallback :: "jstring \<Rightarrow> Server \<Rightarrow> Server" where
  "roundCallback roomId s =
     (case rooms s roomId of
        None \<Rightarrow> s
      | Some r \<Rightarrow>
          if \<not> roundActive r then s
          else
            let s1 = emit (Emit roomId (RoundEnded timeout_reason (round_no r))) s;
                s2 = emit (Emit roomId ClearCanvas) s1;
                s3 = emit (Emit roomId (HintUpdated [])) s2;
                s4 = set_room roomId (r\<lparr>roundActive := False\<rparr>) s3;
                s5 = broadcastRoomState roomId s4
            in snd (setTimeout (Cooldown roomId) s5))"

text \<open>
  The handlers of a connection \<open>sid\<close> (\<open>socket.id\<close>). In \<open>joinRoom\<close>, \<open>rnd\<close> is the
  value of \<open>Math.random().toString(36).slice(2, 8)\<close>. \<open>room\<close> is the object
  registered under \<open>trimmedRoomId\<close>, which the handler never unregisters, so the
  assignment to \<open>room.players\<close> is made on the registry entry. In \<open>answer\<close>, the
  test \<open>!room.roundActive || !room.currentWord\<close> is the \<open>None\<close> branch of the case
  that binds \<open>word\<close> to \<open>room.currentWord\<close>. \<open>console.log\<close> is left out.

  \<open>String.prototype.toLowerCase\<close> belongs to the runtime: its case tables follow the
  Unicode version of the engine and are not part of the repository. \<open>answer\<close> takes
  the function as the parameter \<open>toLowerCase\<close>, and the \<open>answer\<close> event carries it,
  as the other events carry the random draws of the runtime.
\<close>

definition joinRoom :: "jstring \<Rightarrow> jstring \<Rightarrow> jstring \<Rightarrow> jstring \<Rightarrow> Server \<Rightarrow> Server" where
  "joinRoom sid roomId nick rnd s =
     (let trimmedRoomId = (if truthy (trim roomId) then trim roomId else rnd);
          trimmedNick = (if truthy (trim nick) then trim nick else anonymous_nick);
          s1 = snd (getOrCreateRoom trimmedRoomId s);
          s2 = (case socketRoomMap s1 sid of
                  None \<Rightarrow> s1
                | Some prevRoomId \<Rightarrow>
                    if \<not> truthy prevRoomId then s1
                    else
                      case rooms s1 prevRoomId of
                        None \<Rightarrow> s1
                      | Some prevRoom \<Rightarrow>
                          broadcastRoomState prevRoomId
                            (set_room prevRoomId
                               (prevRoom\<lparr>players := obj_delete sid (players prevRoom)\<rparr>)
                               (emit (SocketLeave sid prevRoomId) s1)));
          s3 = emit (SocketJoin sid trimmedRoomId) s2;
          s4 = s3\<lparr>socketRoomMap := (socketRoomMap s3)(sid \<mapsto> trimmedRoomId)\<rparr>;
          s5 = (case rooms s4 trimmedRoomId of
                  None \<Rightarrow> s4
                | Some room \<Rightarrow>
                    set_room trimmedRoomId
                      (room\<lparr>players :=
                         obj_set sid \<lparr>id_player = sid, nickname = trimmedNick, score = 0\<rparr>
                           (players room)\<rparr>) s4);
          s6 = emit (Emit trimmedRoomId (SystemMessage (trimmedNick @ joined_suffix))) s5
      in broadcastRoomState trimmedRoomId s6)"

definition setCategory :: "jstring \<Rightarrow> jstring \<Rightarrow> Server \<Rightarrow> Server" where
  "setCategory sid cat s =
     (case socketRoomMap s sid of
        None \<Rightarrow> s
      | Some roomId \<Rightarrow>
          if \<not> truthy roomId then s
          else
            case rooms s roomId of
              None \<Rightarrow> s
            | Some room \<Rightarrow>
                broadcastRoomState roomId
                  (set_room roomId
                     (room\<lparr>category := (if truthy cat then cat else ascii ''food'')\<rparr>) s))"

definition startGame :: "jstring \<Rightarrow> nat \<Rightarrow> Server \<Rightarrow> Server" where
  "startGame sid rnd s =
     (case socketRoomMap s sid of
        None \<Rightarrow> s
      | Some roomId \<Rightarrow>
          if \<not> truthy roomId then s
          else
            let (room, s1) = getOrCreateRoom roomId s in
            if roundActive room then s1
            else
              let s2 = set_room roomId
                         (room\<lparr>round_no := 0, currentWord := None, drawerId := None\<rparr>) s1;
                  s3 = emit (Emit roomId (SystemMessage game_start_text)) s2
              in startRound roomId rnd s3)"

definition draw :: "jstring \<Rightarrow> jstring \<Rightarrow> stroke \<Rightarrow> Server \<Rightarrow> Server" where
  "draw sid roomId data s = emit (Relay sid roomId (Draw data)) s"

definition clearCanvas :: "jstring \<Rightarrow> jstring \<Rightarrow> Server \<Rightarrow> Server" where
  "clearCanvas sid roomId s = emit (Relay sid roomId ClearCanvas) s"

definition answer :: "jstring \<Rightarrow> jstring \<Rightarrow> (jstring \<Rightarrow> jstring) \<Rightarrow> Server \<Rightarrow> Server" where
  "answer sid msg toLowerCase s =
     (case socketRoomMap s sid of
        None \<Rightarrow> s
      | Some roomId \<Rightarrow>
          if \<not> truthy roomId then s
          else
            case rooms s roomId of
              None \<Rightarrow> s
            | Some room \<Rightarrow>
                case obj_get (players room) sid of
                  None \<Rightarrow> s
                | Some player \<Rightarrow>
                    let text = trim msg in
                    if \<not> truthy text then s
                    else
                      case (if roundActive room \<and> truthy_opt (currentWord room)
                            then currentWord room else None) of
                        None \<Rightarrow> emit (Emit roomId (Chat (nickname player) text False)) s
                      | Some word \<Rightarrow>
                          if drawerId room = Some sid
                          then emit (Emit roomId (Chat (nickname player) text False)) s
                          else
                            let normalizedInput = toLowerCase text;
                                normalizedAnswer = toLowerCase word
                            in if normalizedInput = normalizedAnswer then
                                 let player1 = player\<lparr>score := score player + 10\<rparr>;
                                     room1 = room\<lparr>players := obj_set sid player1 (players room)\<rparr>;
                                     s1 = set_room roomId room1 s;
                                     s2 = emit (Emit roomId (AnswerResult True (id_player player1)
                                            (nickname player1) word (score player1))) s1;
                                     s3 = emit (Emit roomId (RoundEnded
                                            (nickname player1 @ correct_suffix) (round_no room1))) s2;
                                     s4 = emit (Emit roomId ClearCanvas) s3;
                                     s5 = emit (Emit roomId (HintUpdated [])) s4;
                                     s6 = set_room roomId (room1\<lparr>roundActive := False\<rparr>) s5;
                                     s7 = broadcastRoomState roomId s6
                                 in snd (setTimeout (Cooldown roomId) s7)
                               else
                                 broadcastRoomState roomId
                                   (emit (Emit roomId (Chat (nickname player) text False)) s))"

definition chatMessage :: "jstring \<Rightarrow> jstring \<Rightarrow> Server \<Rightarrow> Server" where
  "chatMessage sid msg s =
     (case socketRoomMap s sid of
        None \<Rightarrow> s
      | Some roomId \<Rightarrow>
          if \<not> truthy roomId then s
          else
            case rooms s roomId of
              None \<Rightarrow> s
            | Some room \<Rightarrow>
                case obj_get (players room) sid of
                  None \<Rightarrow> s
                | Some player \<Rightarrow> emit (Emit roomId (Chat (nickname player) msg False)) s)"

definition disconnect :: "jstring \<Rightarrow> Server \<Rightarrow> Server" where
  "disconnect sid s =
     (case socketRoomMap s sid of
        None \<Rightarrow> s
      | Some roomId \<Rightarrow>
          if \<not> truthy roomId then s
          else
            case rooms s roomId of
              None \<Rightarrow> s
            | Some room \<Rightarrow>
                let nick = (case obj_get (players room) sid of
                              None \<Rightarrow> unknown_nick
                            | Some player \<Rightarrow> nickname player);
                    room1 = room\<lparr>players := obj_delete sid (players room)\<rparr>;
                    s1 = set_room roomId room1 s;
                    s2 = s1\<lparr>socketRoomMap := (socketRoomMap s1)(sid := None)\<rparr>;
                    s3 = emit (Emit roomId (SystemMessage (nick @ left_suffix))) s2
                in if length (obj_keys (players room1)) = 0
                   then s3\<lparr>rooms := (rooms s3)(roomId := None)\<rparr>
                   else if drawerId room1 = Some sid \<and> roundActive room1 then
                     let s4 = set_room roomId (room1\<lparr>roundActive := False\<rparr>) s3;
                         s5 = emit (Emit roomId (RoundEnded drawer_left_reason (round_no room1))) s4;
                         s6 = emit (Emit roomId ClearCanvas) s5;
                         s7 = emit (Emit roomId (HintUpdated [])) s6
                     in snd (setTimeout (Cooldown roomId) s7)
                   else broadcastRoomState roomId s3)"

subsection \<open>The event loop\<close>

text \<open>
  A pending timer fires once: it leaves the pending set and its callback runs. The
  cooldown callback is \<open>startRound\<close>, whose word draw is \<open>rnd\<close>.
\<close>

definition fire :: "nat \<Rightarrow> nat \<Rightarrow> Server \<Rightarrow> Server" where
  "fire h rnd s =
     (case timers s h of
        None \<Rightarrow> s
      | Some cb \<Rightarrow>
          (let s1 = s\<lparr>timers := (timers s)(h := None)\<rparr> in
           case cb of
             HintTimer roomId \<Rightarrow> hintCallback roomId s1
           | RoundTimer roomId \<Rightarrow> roundCallback roomId s1
           | Cooldown roomId \<Rightarrow> startRound roomId rnd s1))"

text \<open>
  Inbound events are handled one at a time, each to completion: the events of the
  clients, and the firing of a timer. Any event may follow any other; the transport
  delivers fewer sequences (nothing comes from a connection after its \<open>disconnect\<close>),
  so what holds of every sequence holds of those.
\<close>

datatype event =
    OnJoinRoom jstring jstring jstring jstring
  | OnSetCategory jstring jstring
  | OnStartGame jstring nat
  | OnDraw jstring jstring stroke
  | OnClearCanvas jstring jstring
  | OnAnswer jstring jstring "jstring \<Rightarrow> jstring"
  | OnChatMessage jstring jstring
  | OnDisconnect jstring
  | OnTimer nat nat

fun handle :: "event \<Rightarrow> Server \<Rightarrow> Server" where
  "handle (OnJoinRoom sid roomId nick rnd) s = joinRoom sid roomId nick rnd s"
| "handle (OnSetCategory sid cat) s = setCategory sid cat s"
| "handle (OnStartGame sid rnd) s = startGame sid rnd s"
| "handle (OnDraw sid roomId data) s = draw sid roomId data s"
| "handle (OnClearCanvas sid roomId) s = clearCanvas sid roomId s"
| "handle (OnAnswer sid msg toLowerCase) s = answer sid msg toLowerCase s"
| "handle (OnChatMessage sid msg) s = chatMessage sid msg s"
| "handle (OnDisconnect sid) s = disconnect sid s"
| "handle (OnTimer h rnd) s = fire h rnd s"

fun run :: "event list \<Rightarrow> Server \<Rightarrow> Server" where
  "run [] s = s"
| "run (e # es) s = run es (handle e s)"

subsection \<open>Proof auxiliaries\<close>

text \<open>
  The clean-up of the previous room inside \<open>joinRoom\<close> (the \<open>if (prevRoomId && ...)\<close>
  block), named so that lemmas can speak about it; \<open>joinRoom_unfold\<close> shows that
  \<open>joinRoom\<close> is built from it.
\<close>

definition join_cleanup :: "jstring \<Rightarrow> Server \<Rightarrow> Server" where
  "join_cleanup sid s1 =
     (case socketRoomMap s1 sid of
        None \<Rightarrow> s1
      | Some prevRoomId \<Rightarrow>
          if \<not> truthy prevRoomId then s1
          else
            case rooms s1 prevRoomId of
              None \<Rightarrow> s1
            | Some prevRoom \<Rightarrow>
                broadcastRoomState prevRoomId
                  (set_room prevRoomId
                     (prevRoom\<lparr>players := obj_delete sid (players prevRoom)\<rparr>)
                     (emit (SocketLeave sid prevRoomId) s1)))"

text \<open>
  The room that \<open>getOrCreateRoom\<close> registers, the target and the player record of
  \<open>joinRoom\<close>, and the room as \<open>startRound\<close> leaves it (\<open>h\<close> is the next free
  timer handle); the lemmas \<open>getOrCreateRoom_absent\<close>, \<open>joinRoom_rooms_eq\<close> and
  \<open>startRound_rooms\<close> relate them to the operations.
\<close>

definition fresh_room :: "jstring \<Rightarrow> RoomState" where
  "fresh_room roomId =
     \<lparr>id_room = roomId, players = [], drawerId = None, currentWord = None, round_no = 0,
      maxRounds = 5, category = ascii ''food'', roundActive = False, timerId = None,
      hintTimerId = None\<rparr>"

definition join_target :: "jstring \<Rightarrow> jstring \<Rightarrow> jstring" where
  "join_target roomId rnd = (if truthy (trim roomId) then trim roomId else rnd)"

definition join_player :: "jstring \<Rightarrow> jstring \<Rightarrow> Player" where
  "join_player sid nick =
     \<lparr>id_player = sid,
      nickname = (if truthy (trim nick) then trim nick else anonymous_nick), score = 0\<rparr>"

definition startRound_room :: "nat \<Rightarrow> nat \<Rightarrow> RoomState \<Rightarrow> RoomState" where
  "startRound_room rnd h room =
     (let room2 = room\<lparr>timerId := None, hintTimerId := None, round_no := round_no room + 1\<rparr>
      in if round_no room2 > maxRounds room2
         then room2\<lparr>roundActive := False, currentWord := None, drawerId := None\<rparr>
         else room2\<lparr>drawerId := chooseNextDrawerId room2,
                     currentWord := getRandomWord (category room2) rnd,
                     roundActive := True,
                     hintTimerId := Some h, timerId := Some (Suc h)\<rparr>)"

section \<open>Properties\<close>

subsection \<open>Comparison of an answer with the word\<close>




text \<open>
  What every ECMAScript runtime guarantees of \<open>toLowerCase\<close> on such text, whatever
  its Unicode version: A..Z go to a..z and every other unit stays.
  \<open>basic_latin_lower\<close> is such a function; the concrete runs below use it.
\<close>

definition lower_ascii :: "16 word \<Rightarrow> 16 word" where
  "lower_ascii u = (if 0x41 \<le> u \<and> u \<le> 0x5A then u + 0x20 else u)"


definition basic_latin_lower :: "jstring \<Rightarrow> jstring" where
  "basic_latin_lower s = map lower_ascii s"

subsection \<open>Rounds of a game\<close>







subsection \<open>Properties of every room of the registry\<close>

text \<open>\<open>all_rooms P R\<close>: every room registered in \<open>R\<close> satisfies \<open>P\<close>.\<close>

definition all_rooms :: "(RoomState \<Rightarrow> bool) \<Rightarrow> (jstring \<rightharpoonup> RoomState) \<Rightarrow> bool" where
  "all_rooms P R = (\<forall>roomId room. R roomId = Some room \<longrightarrow> P room)"

text \<open>Roster: the keys of \<open>players\<close> are pairwise distinct, as the keys of an object are.\<close>

definition keys_ok :: "RoomState \<Rightarrow> bool" where
  "keys_ok room = distinct (obj_keys (players room))"

text \<open>Scores: a score is a non-negative multiple of 10.\<close>

definition score_ok :: "Player \<Rightarrow> bool" where
  "score_ok p = (0 \<le> score p \<and> score p mod 10 = 0)"

definition scores_ok :: "RoomState \<Rightarrow> bool" where
  "scores_ok room = list_all score_ok (getPlayerList room)"

text \<open>
  Rounds: while a round is active the word is set and the drawer is a key of
  \<open>players\<close>; the category is not a property that \<open>WORD_POOL\<close> inherits.
\<close>

definition category_own :: "RoomState \<Rightarrow> bool" where
  "category_own room = (category room \<notin> set object_prototype_keys)"

definition round_consistent :: "RoomState \<Rightarrow> bool" where
  "round_consistent room =
     (roundActive room \<longrightarrow>
        currentWord room \<noteq> None
      \<and> drawerId room \<in> Some ` set (obj_keys (players room)))"

definition room_ok :: "RoomState \<Rightarrow> bool" where
  "room_ok room = (category_own room \<and> round_consistent room)"

text \<open>
  The two kinds of event after which an active round can lack its drawer or its word:
  a \<open>joinRoom\<close> of the drawer of an active round into a different room (the clean-up of
  the previous room removes the player and leaves the round as it is), and a
  \<open>setCategory\<close> to a name that \<open>WORD_POOL\<close> inherits. \<open>trace_ok\<close> holds of the
  event sequences without them.
\<close>

fun moves_active_drawer :: "Server \<Rightarrow> event \<Rightarrow> bool" where
  "moves_active_drawer s (OnJoinRoom sid roomId nick rnd) =
     (case socketRoomMap s sid of
        None \<Rightarrow> False
      | Some prev \<Rightarrow>
          truthy prev \<and> prev \<noteq> join_target roomId rnd
        \<and> (case rooms s prev of
              None \<Rightarrow> False
            | Some prevRoom \<Rightarrow> roundActive prevRoom \<and> drawerId prevRoom = Some sid))"
| "moves_active_drawer s e = False"

fun sets_inherited_category :: "event \<Rightarrow> bool" where
  "sets_inherited_category (OnSetCategory sid cat) = (cat \<in> set object_prototype_keys)"
| "sets_inherited_category e = False"

fun trace_ok :: "event list \<Rightarrow> Server \<Rightarrow> bool" where
  "trace_ok [] s = True"
| "trace_ok (e # es) s =
     (\<not> moves_active_drawer s e \<and> \<not> sets_inherited_category e \<and> trace_ok es (handle e s))"

text \<open>
  Game over: the round is inactive and the counter is beyond \<open>maxRounds\<close>.
  \<open>room_kept roomId es s\<close>: the room stays registered while the events \<open>es\<close> are
  handled from \<open>s\<close>.
\<close>

definition game_over_room :: "RoomState \<Rightarrow> bool" where
  "game_over_room room = (\<not> roundActive room \<and> maxRounds room < round_no room)"

fun is_startGame :: "event \<Rightarrow> bool" where
  "is_startGame (OnStartGame sid rnd) = True"
| "is_startGame e = False"

fun room_kept :: "jstring \<Rightarrow> event list \<Rightarrow> Server \<Rightarrow> bool" where
  "room_kept roomId [] s = (rooms s roomId \<noteq> None)"
| "room_kept roomId (e # es) s = (rooms s roomId \<noteq> None \<and> room_kept roomId es (handle e s))"

text \<open>The room whose identifier a pending callback closes over.\<close>

definition callback_room :: "callback \<Rightarrow> jstring" where
  "callback_room cb = (case cb of HintTimer r \<Rightarrow> r | RoundTimer r \<Rightarrow> r | Cooldown r \<Rightarrow> r)"

subsection \<open>Sample data\<close>

text \<open>Concrete players and rooms on which the theorems are instantiated.\<close>

definition demo_player :: "jstring \<Rightarrow> int \<Rightarrow> Player" where
  "demo_player sid n = \<lparr>id_player = sid, nickname = sid, score = n\<rparr>"

definition demo_room :: "jstring \<Rightarrow> (jstring \<times> Player) list \<Rightarrow> RoomState" where
  "demo_room roomId ps =
     \<lparr>id_room = roomId, players = ps, drawerId = None, currentWord = None, round_no = 0,
      maxRounds = 5, category = ascii ''food'', roundActive = False, timerId = None,
      hintTimerId = None\<rparr>"

text \<open>A server that holds one room, with every player of the room bound to it.\<close>

definition demo_server :: "RoomState \<Rightarrow> Server" where
  "demo_server room =
     \<lparr>rooms = [id_room room \<mapsto> room],
      socketRoomMap = (\<lambda>sid. if sid \<in> set (obj_keys (players room)) then Some (id_room room) else None),
      timers = Map.empty, nextTimer = 0, outbox = []\<rparr>"


text \<open>
  Two connections \<open>a\<close> and \<open>b\<close>, two rooms \<open>r\<close> and \<open>q\<close>, and the states along
  the event sequence: \<open>a\<close> joins \<open>r\<close>, \<open>a\<close> starts the game (the word drawn is the
  first of the food list), \<open>b\<close> joins \<open>r\<close>.
\<close>

definition conn_a :: jstring where "conn_a = [0x61]"
definition conn_b :: jstring where "conn_b = [0x62]"
definition room_r :: jstring where "room_r = [0x72]"
definition room_q :: jstring where "room_q = [0x71]"

definition solo_joined :: Server where
  "solo_joined = joinRoom conn_a room_r conn_a room_q init"

definition started_room :: RoomState where
  "started_room =
     \<lparr>id_room = room_r, players = [(conn_a, join_player conn_a conn_a)],
      drawerId = Some conn_a, currentWord = Some [0xC0AC, 0xACFC], round_no = 1,
      maxRounds = 5, category = ascii ''food'', roundActive = True,
      timerId = Some 1, hintTimerId = Some 0\<rparr>"

definition solo_started :: Server where
  "solo_started = startGame conn_a 0 solo_joined"

definition duo :: Server where
  "duo = joinRoom conn_b room_r conn_b room_q solo_started"



text \<open>A room after its fifth round, the category name \<open>constructor\<close>, and a state in which \<open>a\<close> is bound to \<open>r\<close> whatever the registry holds.\<close>

definition finished_room :: RoomState where
  "finished_room = (demo_room room_r [(conn_a, demo_player conn_a 20)])\<lparr>round_no := 5\<rparr>"

definition cat_constructor :: jstring where
  "cat_constructor = ascii ''constructor''"


section \<open>Hint generator: correctness\<close>

lemma length_CHO: "length CHO = 19"
  by (simp add: CHO_def)

lemma from_code_point_unit: "from_code_point (unat (u::16 word)) = [u]"
proof -
  have "unat u < 2 ^ 16" using unsigned_less [of u] by simp
  then show ?thesis by (simp add: from_code_point_def)
qed

lemma from_code_point_pair:
  assumes "is_lead_surrogate u" "is_trail_surrogate v"
  shows "from_code_point (0x10000 + (unat u - 0xD800) * 0x400 + (unat v - 0xDC00)) = [u, v]"
proof -
  from assms have u: "0xD800 \<le> unat u" "unat u \<le> 0xDBFF"
    and v: "0xDC00 \<le> unat v" "unat v \<le> 0xDFFF"
    by (simp_all add: is_lead_surrogate_def is_trail_surrogate_def word_le_nat_alt)
  define a where "a = unat u - 0xD800"
  define b where "b = unat v - 0xDC00"
  have a: "a < 0x400" "unat u = 0xD800 + a" using u by (simp_all add: a_def)
  have b: "b < 0x400" "unat v = 0xDC00 + b" using v by (simp_all add: b_def)
  have "(a * 0x400 + b) div 0x400 = a" "(a * 0x400 + b) mod 0x400 = b"
    using b(1) by simp_all
  then have "from_code_point (0x10000 + a * 0x400 + b) = [of_nat (unat u), of_nat (unat v)]"
    by (simp add: from_code_point_def a(2) b(2) add.assoc)
  then show ?thesis by (simp add: a_def b_def)
qed

text \<open>A character of one unit: the index stays inside the table, so the fallback of \<open>??\<close> is never taken.\<close>

lemma hint_of_char_unit: "hint_of_char [u] = hint_symbol_spec (unat u)"
proof (cases "u < 0xAC00 \<or> u > 0xD7A3")
  case True
  then have "\<not> (0xAC00 \<le> unat u \<and> unat u \<le> 0xD7A3)"
    by (auto simp: word_less_nat_alt)
  with True show ?thesis
    by (auto simp: hint_of_char_def hint_symbol_spec_def from_code_point_unit)
next
  case False
  then have r: "0xAC00 \<le> unat u" "unat u \<le> 0xD7A3"
    by (auto simp: word_less_nat_alt not_less)
  from r(2) have "(unat u - 0xAC00) div 588 < 19" by arith
  with False r show ?thesis
    by (simp add: hint_of_char_def hint_symbol_spec_def length_CHO Let_def)
qed

text \<open>A surrogate pair starts above the syllable block and passes through.\<close>

lemma hint_of_char_pair:
  assumes "is_lead_surrogate u" "is_trail_surrogate v"
  shows "hint_of_char [u, v] =
         hint_symbol_spec (0x10000 + (unat u - 0xD800) * 0x400 + (unat v - 0xDC00))"
proof -
  from assms(1) have "u > 0xD7A3"
    by (simp add: is_lead_surrogate_def word_le_nat_alt word_less_nat_alt)
  then have "hint_of_char [u, v] = [u, v]" by (simp add: hint_of_char_def)
  moreover have "hint_symbol_spec (0x10000 + (unat u - 0xD800) * 0x400 + (unat v - 0xDC00)) = [u, v]"
    using from_code_point_pair [OF assms] by (simp add: hint_symbol_spec_def)
  ultimately show ?thesis by simp
qed

lemma hint_example: "makeChosungHint [0xC0AC, 0xACFC, 0x21] = [0x3145, 0x3131, 0x21]"
  by (simp add: makeChosungHint_def hint_of_char_def CHO_def is_lead_surrogate_def)

text \<open>
  Claim C5. The hint is a function of the secret word alone: character by character, in
  order, a code point of the Hangul syllable block U+AC00..U+D7A3 becomes the symbol of
  the fixed table at index \<open>floor((code - 0xAC00) / 588)\<close>, and every other character
  is kept as it is. The theorem states that \<open>makeChosungHint\<close>, as the source computes
  it on code units, is that function of the code points.
\<close>

theorem makeChosungHint_spec: "makeChosungHint word = hint_spec word"
proof -
  have "map hint_of_char (array_from word) = map hint_symbol_spec (code_points word)"
  proof (induction word rule: array_from.induct)
    case 1
    show ?case by simp
  next
    case (2 u)
    show ?case by (simp add: hint_of_char_unit)
  next
    case (3 u v us)
    then show ?case by (simp add: hint_of_char_unit hint_of_char_pair)
  qed
  then show ?thesis by (simp add: makeChosungHint_def hint_spec_def)
qed

section \<open>Drawer rotation: correctness\<close>


lemma indexOf_ge: "- 1 \<le> indexOf xs x"
  by (induction xs) (auto simp: Let_def)






section \<open>Frame lemmas\<close>

text \<open>What each helper leaves unchanged in the module state.\<close>

lemma emit_fields [simp]:
  "rooms (emit e s) = rooms s"
  "socketRoomMap (emit e s) = socketRoomMap s"
  "timers (emit e s) = timers s"
  "nextTimer (emit e s) = nextTimer s"
  "outbox (emit e s) = outbox s @ [e]"
  by (simp_all add: emit_def)

lemma set_room_fields [simp]:
  "rooms (set_room roomId room s) = (rooms s)(roomId \<mapsto> room)"
  "socketRoomMap (set_room roomId room s) = socketRoomMap s"
  "timers (set_room roomId room s) = timers s"
  "nextTimer (set_room roomId room s) = nextTimer s"
  "outbox (set_room roomId room s) = outbox s"
  by (simp_all add: set_room_def)

lemma clearTimeout_fields [simp]:
  "rooms (clearTimeout h s) = rooms s"
  "socketRoomMap (clearTimeout h s) = socketRoomMap s"
  "timers (clearTimeout h s) = (timers s)(h := None)"
  "nextTimer (clearTimeout h s) = nextTimer s"
  "outbox (clearTimeout h s) = outbox s"
  by (simp_all add: clearTimeout_def)

lemma setTimeout_fields [simp]:
  "fst (setTimeout cb s) = nextTimer s"
  "rooms (snd (setTimeout cb s)) = rooms s"
  "socketRoomMap (snd (setTimeout cb s)) = socketRoomMap s"
  "timers (snd (setTimeout cb s)) = (timers s)(nextTimer s \<mapsto> cb)"
  "nextTimer (snd (setTimeout cb s)) = Suc (nextTimer s)"
  "outbox (snd (setTimeout cb s)) = outbox s"
  by (simp_all add: setTimeout_def)

lemma broadcastRoomState_fields [simp]:
  "rooms (broadcastRoomState roomId s) = rooms s"
  "socketRoomMap (broadcastRoomState roomId s) = socketRoomMap s"
  "timers (broadcastRoomState roomId s) = timers s"
  "nextTimer (broadcastRoomState roomId s) = nextTimer s"
  by (simp_all add: broadcastRoomState_def split: option.splits)

lemma broadcastRoomState_absent: "rooms s roomId = None \<Longrightarrow> broadcastRoomState roomId s = s"
  by (simp add: broadcastRoomState_def)

lemma getOrCreateRoom_fields [simp]:
  "socketRoomMap (snd (getOrCreateRoom roomId s)) = socketRoomMap s"
  "timers (snd (getOrCreateRoom roomId s)) = timers s"
  "nextTimer (snd (getOrCreateRoom roomId s)) = nextTimer s"
  "outbox (snd (getOrCreateRoom roomId s)) = outbox s"
  by (simp_all add: getOrCreateRoom_def Let_def split: option.splits)

lemma getOrCreateRoom_registered:
  "rooms (snd (getOrCreateRoom roomId s)) roomId = Some (fst (getOrCreateRoom roomId s))"
  by (simp add: getOrCreateRoom_def Let_def split: option.splits)

lemma getOrCreateRoom_absent:
  "rooms s roomId = None \<Longrightarrow>
   getOrCreateRoom roomId s = (fresh_room roomId, set_room roomId (fresh_room roomId) s)"
  by (simp add: getOrCreateRoom_def fresh_room_def Let_def)

lemma getOrCreateRoom_present:
  "rooms s roomId = Some room \<Longrightarrow> getOrCreateRoom roomId s = (room, s)"
  by (simp add: getOrCreateRoom_def)

lemma getOrCreateRoom_rooms:
  "rooms (snd (getOrCreateRoom roomId s)) =
     (case rooms s roomId of None \<Rightarrow> (rooms s)(roomId \<mapsto> fresh_room roomId) | Some room \<Rightarrow> rooms s)"
  by (simp add: getOrCreateRoom_absent getOrCreateRoom_present split: option.splits)

lemma clearRoomTimers_fields [simp]:
  "fst (clearRoomTimers room s) = room\<lparr>timerId := None, hintTimerId := None\<rparr>"
  "rooms (snd (clearRoomTimers room s)) = rooms s"
  "socketRoomMap (snd (clearRoomTimers room s)) = socketRoomMap s"
  "nextTimer (snd (clearRoomTimers room s)) = nextTimer s"
  "outbox (snd (clearRoomTimers room s)) = outbox s"
  by (simp_all add: clearRoomTimers_def Let_def split: option.splits)

lemma obj_get_set: "obj_get (obj_set k v ps) k = Some v"
  by (induction ps) (auto simp: obj_get_def)

lemma obj_get_set_other: "k' \<noteq> k \<Longrightarrow> obj_get (obj_set k v ps) k' = obj_get ps k'"
  by (induction ps) (auto simp: obj_get_def)


lemma join_cleanup_fields [simp]:
  "socketRoomMap (join_cleanup sid s) = socketRoomMap s"
  "timers (join_cleanup sid s) = timers s"
  "nextTimer (join_cleanup sid s) = nextTimer s"
  by (simp_all add: join_cleanup_def split: option.splits)

lemma join_cleanup_rooms:
  "rooms (join_cleanup sid s) roomId =
     (if socketRoomMap s sid = Some roomId \<and> truthy roomId
      then map_option (\<lambda>r. r\<lparr>players := obj_delete sid (players r)\<rparr>) (rooms s roomId)
      else rooms s roomId)"
  by (simp add: join_cleanup_def split: option.splits)

lemma joinRoom_unfold:
  "joinRoom sid roomId nick rnd s =
     (let trimmedRoomId = (if truthy (trim roomId) then trim roomId else rnd);
          trimmedNick = (if truthy (trim nick) then trim nick else anonymous_nick);
          s1 = snd (getOrCreateRoom trimmedRoomId s);
          s2 = join_cleanup sid s1;
          s3 = emit (SocketJoin sid trimmedRoomId) s2;
          s4 = s3\<lparr>socketRoomMap := (socketRoomMap s3)(sid \<mapsto> trimmedRoomId)\<rparr>;
          s5 = (case rooms s4 trimmedRoomId of
                  None \<Rightarrow> s4
                | Some room \<Rightarrow>
                    set_room trimmedRoomId
                      (room\<lparr>players :=
                         obj_set sid \<lparr>id_player = sid, nickname = trimmedNick, score = 0\<rparr>
                           (players room)\<rparr>) s4);
          s6 = emit (Emit trimmedRoomId (SystemMessage (trimmedNick @ joined_suffix))) s5
      in broadcastRoomState trimmedRoomId s6)"
  unfolding joinRoom_def join_cleanup_def [symmetric] by (rule refl)

text \<open>The registry after \<open>joinRoom\<close>, given the room found under the target identifier after the clean-up.\<close>

lemma joinRoom_rooms:
  assumes "rooms (join_cleanup sid (snd (getOrCreateRoom target s))) target = Some room"
    and "target = (if truthy (trim roomId) then trim roomId else rnd)"
  shows "rooms (joinRoom sid roomId nick rnd s) =
         (rooms (join_cleanup sid (snd (getOrCreateRoom target s))))
           (target \<mapsto> room\<lparr>players := obj_set sid
              \<lparr>id_player = sid,
               nickname = (if truthy (trim nick) then trim nick else anonymous_nick),
               score = 0\<rparr> (players room)\<rparr>)"
  using assms(1) unfolding joinRoom_unfold assms(2) [symmetric] Let_def by simp

lemma join_target_exists:
  "\<exists>room. rooms (join_cleanup sid (snd (getOrCreateRoom target s))) target = Some room"
  using getOrCreateRoom_registered [of target s]
  by (simp add: join_cleanup_rooms)

lemma join_cleanup_rooms_eq:
  "rooms (join_cleanup sid s) =
     (case socketRoomMap s sid of
        None \<Rightarrow> rooms s
      | Some prev \<Rightarrow>
          if \<not> truthy prev then rooms s
          else
            case rooms s prev of
              None \<Rightarrow> rooms s
            | Some pr \<Rightarrow> (rooms s)(prev \<mapsto> pr\<lparr>players := obj_delete sid (players pr)\<rparr>))"
  by (simp add: join_cleanup_def split: option.splits)

lemma joinRoom_rooms_eq:
  "rooms (joinRoom sid roomId nick rnd s) =
     (case rooms (join_cleanup sid (snd (getOrCreateRoom (join_target roomId rnd) s)))
             (join_target roomId rnd) of
        None \<Rightarrow> rooms (join_cleanup sid (snd (getOrCreateRoom (join_target roomId rnd) s)))
      | Some room \<Rightarrow>
          (rooms (join_cleanup sid (snd (getOrCreateRoom (join_target roomId rnd) s))))
            (join_target roomId rnd \<mapsto>
               room\<lparr>players := obj_set sid (join_player sid nick) (players room)\<rparr>))"
  unfolding joinRoom_unfold Let_def
  by (simp add: join_player_def join_target_def split: option.splits)

section \<open>joinRoom\<close>

text \<open>
  Claim C9. After every \<open>joinRoom\<close>, the room joined (the trimmed identifier, or the
  random one when it is empty) holds for the joining connection a player record with
  the trimmed nickname and score 0. Nothing is assumed about the state before: the
  record is overwritten when the connection was already a member of that room, so a
  rejoin resets the score.
\<close>

theorem joinRoom_fresh_score:
  "map_option (\<lambda>room. obj_get (players room) sid)
     (rooms (joinRoom sid roomId nick rnd s) (if truthy (trim roomId) then trim roomId else rnd))
   = Some (Some \<lparr>id_player = sid,
                 nickname = (if truthy (trim nick) then trim nick else anonymous_nick),
                 score = 0\<rparr>)"
proof -
  define target where "target = (if truthy (trim roomId) then trim roomId else rnd)"
  obtain room where r: "rooms (join_cleanup sid (snd (getOrCreateRoom target s))) target = Some room"
    using join_target_exists by blast
  show ?thesis
    unfolding target_def [symmetric] joinRoom_rooms [OF r target_def]
    by (simp add: obj_get_set)
qed

text \<open>A player with score 30 joins the room it is already in: the score is 0 afterwards.\<close>

theorem joinRoom_fresh_score_witness:
  "map_option (\<lambda>room. obj_get (players room) [0x41])
     (rooms (demo_server (demo_room [0x72] [([0x41], demo_player [0x41] 30)])) [0x72])
     = Some (Some (demo_player [0x41] 30))
   \<and> map_option (\<lambda>room. obj_get (players room) [0x41])
     (rooms (joinRoom [0x41] [0x72] [0x41] [0x71]
        (demo_server (demo_room [0x72] [([0x41], demo_player [0x41] 30)]))) [0x72])
     = Some (Some \<lparr>id_player = [0x41], nickname = [0x41], score = 0\<rparr>)"
proof -
  have t: "trim [0x72] = [0x72]" "trim [0x41] = [0x41]"
    by (simp_all add: trim_def is_space_def)
  have "map_option (\<lambda>room. obj_get (players room) [0x41])
     (rooms (demo_server (demo_room [0x72] [([0x41], demo_player [0x41] 30)])) [0x72])
     = Some (Some (demo_player [0x41] 30))"
    by (simp add: demo_server_def demo_room_def obj_get_def)
  moreover have "map_option (\<lambda>room. obj_get (players room) [0x41])
     (rooms (joinRoom [0x41] [0x72] [0x41] [0x71]
        (demo_server (demo_room [0x72] [([0x41], demo_player [0x41] 30)]))) [0x72])
     = Some (Some \<lparr>id_player = [0x41], nickname = [0x41], score = 0\<rparr>)"
    using joinRoom_fresh_score [of "[0x41]" "[0x72]" "[0x41]" "[0x71]"
        "demo_server (demo_room [0x72] [([0x41], demo_player [0x41] 30)])"]
    by (simp add: t truthy_def)
  ultimately show ?thesis by blast
qed

section \<open>Answer evaluation\<close>
















section \<open>The registry after each handler\<close>

lemma clearRoomTimers_timers:
  "timers (snd (clearRoomTimers room s)) =
     (\<lambda>h. if timerId room = Some h \<or> hintTimerId room = Some h then None else timers s h)"
  by (auto simp: clearRoomTimers_def Let_def fun_eq_iff split: option.splits)

lemma startRound_gameOver_fields:
  "rooms (startRound_gameOver roomId room s) =
     (rooms s)(roomId \<mapsto> room\<lparr>roundActive := False, currentWord := None, drawerId := None\<rparr>)"
  "socketRoomMap (startRound_gameOver roomId room s) = socketRoomMap s"
  "timers (startRound_gameOver roomId room s) = timers s"
  "nextTimer (startRound_gameOver roomId room s) = nextTimer s"
  "outbox (startRound_gameOver roomId room s) =
     outbox s @
     [Emit roomId (GameEnded (map snd (players room))),
      Emit roomId ClearCanvas,
      Emit roomId (HintUpdated []),
      Emit roomId (RoomStateMsg (map snd (players room)) None (round_no room) (maxRounds room)
        (category room) False)]"
  by (simp_all add: startRound_gameOver_def Let_def broadcastRoomState_def getPlayerList_def)

lemma startRound_begin_fields:
  "rooms (startRound_begin roomId rnd room s) =
     (rooms s)(roomId \<mapsto> room\<lparr>drawerId := chooseNextDrawerId room,
                  currentWord := getRandomWord (category room) rnd,
                  roundActive := True,
                  hintTimerId := Some (nextTimer s), timerId := Some (Suc (nextTimer s))\<rparr>)"
  "socketRoomMap (startRound_begin roomId rnd room s) = socketRoomMap s"
  "timers (startRound_begin roomId rnd room s) =
     (timers s)(nextTimer s \<mapsto> HintTimer roomId, Suc (nextTimer s) \<mapsto> RoundTimer roomId)"
  "nextTimer (startRound_begin roomId rnd room s) = Suc (Suc (nextTimer s))"
  by (simp_all add: startRound_begin_def Let_def case_prod_unfold split: option.splits)

lemma startRound_absent: "rooms s roomId = None \<Longrightarrow> startRound roomId rnd s = s"
  by (simp add: startRound_def)

lemma startRound_empty:
  "rooms s roomId = Some room \<Longrightarrow> players room = [] \<Longrightarrow> startRound roomId rnd s = s"
  by (simp add: startRound_def obj_keys_def)

lemma startRound_over:
  assumes "rooms s roomId = Some room" "players room \<noteq> []"
    and "round_no room + 1 > maxRounds room"
  shows "startRound roomId rnd s =
         startRound_gameOver roomId
           (room\<lparr>timerId := None, hintTimerId := None, round_no := round_no room + 1\<rparr>)
           (snd (clearRoomTimers room s))"
  using assms by (simp add: startRound_def obj_keys_def case_prod_unfold Let_def)

lemma startRound_next:
  assumes "rooms s roomId = Some room" "players room \<noteq> []"
    and "\<not> round_no room + 1 > maxRounds room"
  shows "startRound roomId rnd s =
         startRound_begin roomId rnd
           (room\<lparr>timerId := None, hintTimerId := None, round_no := round_no room + 1\<rparr>)
           (snd (clearRoomTimers room s))"
  using assms by (simp add: startRound_def obj_keys_def case_prod_unfold Let_def)

lemma startRound_rooms:
  "rooms (startRound roomId rnd s) =
     (case rooms s roomId of
        None \<Rightarrow> rooms s
      | Some room \<Rightarrow>
          if players room = [] then rooms s
          else (rooms s)(roomId \<mapsto> startRound_room rnd (nextTimer s) room))"
proof (cases "rooms s roomId")
  case None
  then show ?thesis by (simp add: startRound_absent)
next
  case (Some room)
  show ?thesis
  proof (cases "players room = []")
    case True
    with Some show ?thesis by (simp add: startRound_empty)
  next
    case False
    show ?thesis
    proof (cases "round_no room + 1 > maxRounds room")
      case True
      with Some False show ?thesis
        by (simp add: startRound_over startRound_gameOver_fields startRound_room_def)
    next
      case over: False
      with Some False show ?thesis
        by (simp add: startRound_next startRound_begin_fields startRound_room_def
            chooseNextDrawerId_def)
    qed
  qed
qed

lemma startRound_socketRoomMap [simp]: "socketRoomMap (startRound roomId rnd s) = socketRoomMap s"
  by (cases "rooms s roomId")
     (auto simp: startRound_def obj_keys_def case_prod_unfold Let_def
        startRound_gameOver_fields startRound_begin_fields)


lemma setCategory_rooms:
  "rooms (setCategory sid cat s) =
     (case socketRoomMap s sid of
        None \<Rightarrow> rooms s
      | Some roomId \<Rightarrow>
          if \<not> truthy roomId then rooms s
          else
            case rooms s roomId of
              None \<Rightarrow> rooms s
            | Some room \<Rightarrow>
                (rooms s)(roomId \<mapsto> room\<lparr>category := (if truthy cat then cat else ascii ''food'')\<rparr>))"
  by (simp add: setCategory_def split: option.splits)

lemma startGame_rooms:
  "rooms (startGame sid rnd s) =
     (case socketRoomMap s sid of
        None \<Rightarrow> rooms s
      | Some roomId \<Rightarrow>
          if \<not> truthy roomId then rooms s
          else
            case rooms s roomId of
              None \<Rightarrow> (rooms s)(roomId \<mapsto> fresh_room roomId)
            | Some room \<Rightarrow>
                if roundActive room then rooms s
                else if players room = []
                then (rooms s)(roomId \<mapsto> room\<lparr>round_no := 0, currentWord := None, drawerId := None\<rparr>)
                else (rooms s)(roomId \<mapsto> startRound_room rnd (nextTimer s)
                        (room\<lparr>round_no := 0, currentWord := None, drawerId := None\<rparr>)))"
proof (cases "socketRoomMap s sid")
  case None
  then show ?thesis by (simp add: startGame_def)
next
  case (Some roomId)
  show ?thesis
  proof (cases "rooms s roomId")
    case None
    with Some show ?thesis
      by (simp add: startGame_def getOrCreateRoom_absent startRound_rooms)
         (simp add: fresh_room_def)
  next
    case r: (Some room)
    with Some show ?thesis
      by (simp add: startGame_def getOrCreateRoom_present startRound_rooms Let_def)
  qed
qed

lemma draw_rooms [simp]: "rooms (draw sid roomId data s) = rooms s"
  by (simp add: draw_def)

lemma clearCanvas_rooms [simp]: "rooms (clearCanvas sid roomId s) = rooms s"
  by (simp add: clearCanvas_def)

lemma chatMessage_rooms [simp]: "rooms (chatMessage sid msg s) = rooms s"
  by (simp add: chatMessage_def split: option.splits)

lemma answer_rooms:
  "rooms (answer sid msg toLowerCase s) =
     (case socketRoomMap s sid of
        None \<Rightarrow> rooms s
      | Some roomId \<Rightarrow>
          case rooms s roomId of
            None \<Rightarrow> rooms s
          | Some room \<Rightarrow>
              case obj_get (players room) sid of
                None \<Rightarrow> rooms s
              | Some player \<Rightarrow>
                  if truthy roomId \<and> truthy (trim msg) \<and> roundActive room
                     \<and> truthy_opt (currentWord room) \<and> drawerId room \<noteq> Some sid
                     \<and> Some (toLowerCase (trim msg)) = map_option toLowerCase (currentWord room)
                  then (rooms s)(roomId \<mapsto> room\<lparr>players :=
                          obj_set sid (player\<lparr>score := score player + 10\<rparr>) (players room),
                          roundActive := False\<rparr>)
                  else rooms s)"
  by (auto simp: answer_def Let_def truthy_opt_def split: option.splits)

lemma disconnect_rooms:
  "rooms (disconnect sid s) =
     (case socketRoomMap s sid of
        None \<Rightarrow> rooms s
      | Some roomId \<Rightarrow>
          if \<not> truthy roomId then rooms s
          else
            case rooms s roomId of
              None \<Rightarrow> rooms s
            | Some room \<Rightarrow>
                if obj_delete sid (players room) = [] then (rooms s)(roomId := None)
                else if drawerId room = Some sid \<and> roundActive room
                then (rooms s)(roomId \<mapsto> room\<lparr>players := obj_delete sid (players room),
                                               roundActive := False\<rparr>)
                else (rooms s)(roomId \<mapsto> room\<lparr>players := obj_delete sid (players room)\<rparr>))"
  by (simp add: disconnect_def Let_def obj_keys_def split: option.splits)

lemma hintCallback_rooms [simp]: "rooms (hintCallback roomId s) = rooms s"
  by (simp add: hintCallback_def split: option.splits)

lemma roundCallback_rooms:
  "rooms (roundCallback roomId s) =
     (case rooms s roomId of
        None \<Rightarrow> rooms s
      | Some r \<Rightarrow> if roundActive r then (rooms s)(roomId \<mapsto> r\<lparr>roundActive := False\<rparr>) else rooms s)"
  by (simp add: roundCallback_def Let_def split: option.splits)

lemma fire_rooms:
  "rooms (fire h rnd s) =
     (case timers s h of
        None \<Rightarrow> rooms s
      | Some (HintTimer roomId) \<Rightarrow> rooms s
      | Some (RoundTimer roomId) \<Rightarrow>
          (case rooms s roomId of
             None \<Rightarrow> rooms s
           | Some r \<Rightarrow>
               if roundActive r then (rooms s)(roomId \<mapsto> r\<lparr>roundActive := False\<rparr>) else rooms s)
      | Some (Cooldown roomId) \<Rightarrow>
          (case rooms s roomId of
             None \<Rightarrow> rooms s
           | Some room \<Rightarrow>
               if players room = [] then rooms s
               else (rooms s)(roomId \<mapsto> startRound_room rnd (nextTimer s) room)))"
  by (simp add: fire_def Let_def roundCallback_rooms startRound_rooms
      split: option.splits callback.splits)

section \<open>Invariants of the registry\<close>

lemma all_rooms_empty: "all_rooms P Map.empty"
  by (simp add: all_rooms_def)

lemma all_roomsD: "all_rooms P R \<Longrightarrow> R roomId = Some room \<Longrightarrow> P room"
  by (simp add: all_rooms_def)

lemma all_rooms_upd: "all_rooms P R \<Longrightarrow> P room \<Longrightarrow> all_rooms P (R(roomId \<mapsto> room))"
  by (simp add: all_rooms_def)

lemma all_rooms_del: "all_rooms P R \<Longrightarrow> all_rooms P (R(roomId := None))"
  by (simp add: all_rooms_def)

lemma in_obj_set: "x \<in> set (obj_set k v ps) \<Longrightarrow> x = (k, v) \<or> x \<in> set ps"
  by (induction ps) (auto split: if_splits)

lemma in_obj_delete: "x \<in> set (obj_delete k ps) \<Longrightarrow> x \<in> set ps"
  by (simp add: obj_delete_def)

lemma obj_get_mem: "obj_get ps k = Some v \<Longrightarrow> (k, v) \<in> set ps"
  by (simp add: obj_get_def map_of_SomeD)

lemma startRound_room_players [simp]: "players (startRound_room rnd h room) = players room"
  by (simp add: startRound_room_def Let_def)

lemma scores_ok_iff: "scores_ok room = (\<forall>kp \<in> set (players room). score_ok (snd kp))"
  by (auto simp: scores_ok_def getPlayerList_def list_all_iff)

lemma scores_ok_upd [simp]:
  "scores_ok (room\<lparr>category := c\<rparr>) = scores_ok room"
  "scores_ok (room\<lparr>roundActive := b\<rparr>) = scores_ok room"
  "scores_ok (room\<lparr>round_no := n\<rparr>) = scores_ok room"
  "scores_ok (room\<lparr>currentWord := w\<rparr>) = scores_ok room"
  "scores_ok (room\<lparr>drawerId := d\<rparr>) = scores_ok room"
  "scores_ok (startRound_room rnd h room) = scores_ok room"
  by (simp_all add: scores_ok_iff)

lemma scores_ok_fresh: "scores_ok (fresh_room roomId)"
  by (simp add: scores_ok_iff fresh_room_def)

lemma scores_ok_delete:
  "scores_ok room \<Longrightarrow> players room' = obj_delete sid (players room) \<Longrightarrow> scores_ok room'"
  by (auto simp: scores_ok_iff dest: in_obj_delete)

lemma scores_ok_set:
  "scores_ok room \<Longrightarrow> score_ok p \<Longrightarrow> players room' = obj_set sid p (players room) \<Longrightarrow>
   scores_ok room'"
  by (auto simp: scores_ok_iff dest!: in_obj_set)

lemma score_ok_join: "score_ok (join_player sid nick)"
  by (simp add: score_ok_def join_player_def)

lemma score_ok_add:
  assumes "scores_ok room" "obj_get (players room) sid = Some p"
  shows "score_ok (p\<lparr>score := score p + 10\<rparr>)"
proof -
  from assms(2) have "(sid, p) \<in> set (players room)" by (rule obj_get_mem)
  with assms(1) have "score_ok (snd (sid, p))" unfolding scores_ok_iff by (rule bspec)
  then show ?thesis by (auto simp: score_ok_def)
qed

lemma scores_getOrCreate:
  "all_rooms scores_ok (rooms s) \<Longrightarrow> all_rooms scores_ok (rooms (snd (getOrCreateRoom roomId s)))"
  unfolding getOrCreateRoom_rooms
  by (auto split: option.splits intro!: all_rooms_upd scores_ok_fresh)

lemma scores_join_cleanup:
  "all_rooms scores_ok (rooms s) \<Longrightarrow> all_rooms scores_ok (rooms (join_cleanup sid s))"
  unfolding join_cleanup_rooms_eq
  by (auto split: option.splits intro!: all_rooms_upd
      intro: scores_ok_delete [OF all_roomsD])

lemma scores_joinRoom:
  assumes "all_rooms scores_ok (rooms s)"
  shows "all_rooms scores_ok (rooms (joinRoom sid roomId nick rnd s))"
proof -
  let ?R = "rooms (join_cleanup sid (snd (getOrCreateRoom (join_target roomId rnd) s)))"
  have i: "all_rooms scores_ok ?R"
    using assms by (intro scores_join_cleanup scores_getOrCreate)
  show ?thesis
  proof (cases "?R (join_target roomId rnd)")
    case None
    with i show ?thesis by (simp add: joinRoom_rooms_eq)
  next
    case (Some room)
    have "scores_ok (room\<lparr>players := obj_set sid (join_player sid nick) (players room)\<rparr>)"
      by (rule scores_ok_set [OF all_roomsD [OF i Some] score_ok_join]) simp
    with i Some show ?thesis by (simp add: joinRoom_rooms_eq all_rooms_upd)
  qed
qed

lemma scores_setCategory:
  "all_rooms scores_ok (rooms s) \<Longrightarrow> all_rooms scores_ok (rooms (setCategory sid cat s))"
  unfolding setCategory_rooms
  by (auto split: option.splits intro!: all_rooms_upd intro: all_roomsD [where P = scores_ok])

lemma scores_startRound:
  "all_rooms scores_ok (rooms s) \<Longrightarrow> all_rooms scores_ok (rooms (startRound roomId rnd s))"
  unfolding startRound_rooms
  by (auto split: option.splits intro!: all_rooms_upd intro: all_roomsD [where P = scores_ok])

lemma scores_startGame:
  "all_rooms scores_ok (rooms s) \<Longrightarrow> all_rooms scores_ok (rooms (startGame sid rnd s))"
  unfolding startGame_rooms
  by (auto split: option.splits intro!: all_rooms_upd scores_ok_fresh
      intro: all_roomsD [where P = scores_ok])

lemma scores_answer:
  "all_rooms scores_ok (rooms s) \<Longrightarrow> all_rooms scores_ok (rooms (answer sid msg toLowerCase s))"
  unfolding answer_rooms
  by (auto split: option.splits intro!: all_rooms_upd
      intro: scores_ok_set [OF all_roomsD score_ok_add [OF all_roomsD]])

lemma scores_disconnect:
  "all_rooms scores_ok (rooms s) \<Longrightarrow> all_rooms scores_ok (rooms (disconnect sid s))"
  unfolding disconnect_rooms
  by (auto split: option.splits intro!: all_rooms_upd all_rooms_del
      intro: scores_ok_delete [OF all_roomsD])

lemma scores_fire:
  "all_rooms scores_ok (rooms s) \<Longrightarrow> all_rooms scores_ok (rooms (fire h rnd s))"
  unfolding fire_rooms
  by (auto split: option.splits callback.splits intro!: all_rooms_upd
      intro: all_roomsD [where P = scores_ok])

lemma scores_handle:
  "all_rooms scores_ok (rooms s) \<Longrightarrow> all_rooms scores_ok (rooms (handle e s))"
  by (cases e)
     (simp_all add: scores_joinRoom scores_setCategory scores_startGame scores_answer
        scores_disconnect scores_fire)

lemma scores_run:
  "all_rooms scores_ok (rooms s) \<Longrightarrow> all_rooms scores_ok (rooms (run es s))"
  by (induction es arbitrary: s) (simp_all add: scores_handle)

subsection \<open>Drawer and word of an active round\<close>

lemma keys_obj_set: "set (obj_keys (obj_set k v ps)) = insert k (set (obj_keys ps))"
  by (induction ps) (auto simp: obj_keys_def)

lemma keys_obj_delete: "set (obj_keys (obj_delete k ps)) = set (obj_keys ps) - {k}"
  by (auto simp: obj_keys_def obj_delete_def)

lemma indexOf_less: "indexOf xs x < int (length xs)"
  by (induction xs) (auto simp: Let_def)

lemma chooseNextDrawerId_mem:
  assumes "players room \<noteq> []"
  shows "\<exists>d. chooseNextDrawerId room = Some d \<and> d \<in> set (obj_keys (players room))"
proof -
  let ?ids = "obj_keys (players room)"
  have ne: "?ids \<noteq> []" using assms by (simp add: obj_keys_def)
  then have z: "elem_at ?ids 0 = Some (?ids ! 0)" "?ids ! 0 \<in> set ?ids"
    by (simp_all add: elem_at_def)
  show ?thesis
  proof (cases "drawerId room")
    case None
    with ne z show ?thesis by (simp add: chooseNextDrawerId_def)
  next
    case (Some d)
    let ?idx = "indexOf ?ids d"
    show ?thesis
    proof (cases "\<not> truthy d \<or> ?idx = -1 \<or> ?idx = int (length ?ids) - 1")
      case True
      with Some ne z show ?thesis by (auto simp: chooseNextDrawerId_def Let_def)
    next
      case False
      have "- 1 \<le> ?idx" "?idx < int (length ?ids)"
        by (rule indexOf_ge, rule indexOf_less)
      with False have "nat (?idx + 1) < length ?ids" by auto
      then have "elem_at ?ids (nat (?idx + 1)) = Some (?ids ! nat (?idx + 1))"
        "?ids ! nat (?idx + 1) \<in> set ?ids"
        by (simp_all add: elem_at_def)
      with False Some ne show ?thesis by (auto simp: chooseNextDrawerId_def Let_def)
    qed
  qed
qed

lemma food_not_inherited: "ascii ''food'' \<notin> set object_prototype_keys"
  by (simp add: object_prototype_keys_def ascii_def)

lemma getRandomWord_defined:
  assumes "cat \<notin> set object_prototype_keys"
  shows "getRandomWord cat rnd \<noteq> None"
proof -
  have pick: "(let idx = (if length ws = 0 then 0 else rnd mod length ws) in elem_at ws idx) \<noteq> None"
    if "ws \<noteq> []" for ws :: "jstring list"
    using that by (simp add: elem_at_def Let_def)
  have "\<exists>ws. ws \<noteq> [] \<and>
          (case WORD_POOL cat of Undefined \<Rightarrow> WORD_POOL (ascii ''food'') | e \<Rightarrow> e) = WordList ws"
    using assms by (simp add: WORD_POOL_def)
  then obtain ws where "ws \<noteq> []"
    "(case WORD_POOL cat of Undefined \<Rightarrow> WORD_POOL (ascii ''food'') | e \<Rightarrow> e) = WordList ws"
    by blast
  with pick [of ws] show ?thesis by (simp add: getRandomWord_def)
qed


lemma room_ok_fresh: "room_ok (fresh_room roomId)"
  by (simp add: room_ok_def category_own_def round_consistent_def fresh_room_def
      food_not_inherited)

lemma room_ok_startRound_room:
  assumes "category_own room" "players room \<noteq> []"
  shows "room_ok (startRound_room rnd h room)"
proof -
  let ?room2 = "room\<lparr>timerId := None, hintTimerId := None, round_no := round_no room + 1\<rparr>"
  obtain d where d: "chooseNextDrawerId ?room2 = Some d" "d \<in> set (obj_keys (players room))"
    using chooseNextDrawerId_mem [of ?room2] assms(2) by auto
  have w: "getRandomWord (category room) rnd \<noteq> None"
    using assms(1) by (simp add: category_own_def getRandomWord_defined)
  show ?thesis
    using assms(1) d w
    by (simp add: startRound_room_def Let_def room_ok_def category_own_def round_consistent_def)
qed

lemma room_ok_inactive:
  "category_own room \<Longrightarrow> room_ok (room\<lparr>roundActive := False\<rparr>)"
  by (simp add: room_ok_def category_own_def round_consistent_def)

lemma room_ok_reset:
  "room_ok room \<Longrightarrow> \<not> roundActive room \<Longrightarrow>
   room_ok (room\<lparr>round_no := 0, currentWord := None, drawerId := None\<rparr>)"
  by (simp add: room_ok_def category_own_def round_consistent_def)

lemma room_ok_category:
  "room_ok room \<Longrightarrow> c \<notin> set object_prototype_keys \<Longrightarrow> room_ok (room\<lparr>category := c\<rparr>)"
  by (simp add: room_ok_def category_own_def round_consistent_def)

lemma room_ok_add_player:
  "room_ok room \<Longrightarrow> room_ok (room\<lparr>players := obj_set sid p (players room)\<rparr>)"
  by (auto simp: room_ok_def category_own_def round_consistent_def keys_obj_set)

lemma room_ok_del_player:
  "room_ok room \<Longrightarrow> \<not> (roundActive room \<and> drawerId room = Some sid) \<Longrightarrow>
   room_ok (room\<lparr>players := obj_delete sid (players room)\<rparr>)"
  by (auto simp: room_ok_def category_own_def round_consistent_def keys_obj_delete)

lemma room_ok_del_add:
  "room_ok room \<Longrightarrow>
   room_ok (room\<lparr>players := obj_set sid p (obj_delete sid (players room))\<rparr>)"
  by (auto simp: room_ok_def category_own_def round_consistent_def keys_obj_set keys_obj_delete)

lemma room_ok_score:
  "room_ok room \<Longrightarrow>
   room_ok (room\<lparr>players := obj_set sid p (players room), roundActive := False\<rparr>)"
  by (simp add: room_ok_def category_own_def round_consistent_def)

lemma room_ok_del_inactive:
  "room_ok room \<Longrightarrow>
   room_ok (room\<lparr>players := obj_delete sid (players room), roundActive := False\<rparr>)"
  by (simp add: room_ok_def category_own_def round_consistent_def)

lemmas room_okD = all_roomsD [where P = room_ok]

lemma room_ok_own: "room_ok room \<Longrightarrow> category_own room"
  by (simp add: room_ok_def)

lemma ok_setCategory:
  assumes "all_rooms room_ok (rooms s)" "cat \<notin> set object_prototype_keys"
  shows "all_rooms room_ok (rooms (setCategory sid cat s))"
  unfolding setCategory_rooms using assms food_not_inherited
  by (auto split: option.splits intro!: all_rooms_upd room_ok_category intro: room_okD)

lemma ok_startRound:
  assumes "all_rooms room_ok (rooms s)"
  shows "all_rooms room_ok (rooms (startRound roomId rnd s))"
proof (cases "rooms s roomId")
  case None
  with assms show ?thesis by (simp add: startRound_rooms)
next
  case (Some room)
  then have "room_ok room" using assms by (auto intro: room_okD)
  then have "category_own room" by (rule room_ok_own)
  then have "players room \<noteq> [] \<Longrightarrow> room_ok (startRound_room rnd (nextTimer s) room)"
    by (rule room_ok_startRound_room)
  with assms Some show ?thesis by (simp add: startRound_rooms all_rooms_upd)
qed

lemma ok_startGame:
  assumes "all_rooms room_ok (rooms s)"
  shows "all_rooms room_ok (rooms (startGame sid rnd s))"
proof -
  have "room_ok (startRound_room rnd h (room\<lparr>round_no := 0, currentWord := None, drawerId := None\<rparr>))"
    if "rooms s roomId = Some room" "players room \<noteq> []" for roomId room h
  proof -
    from that(1) assms have "room_ok room" by (auto intro: room_okD)
    then have "category_own room" by (rule room_ok_own)
    then have "category_own (room\<lparr>round_no := 0, currentWord := None, drawerId := None\<rparr>)"
      by (simp add: category_own_def)
    then show ?thesis using that(2) by (intro room_ok_startRound_room) simp_all
  qed
  moreover have "room_ok (room\<lparr>round_no := 0, currentWord := None, drawerId := None\<rparr>)"
    if "rooms s roomId = Some room" "\<not> roundActive room" for roomId room
    using that assms by (auto intro: room_ok_reset room_okD)
  ultimately show ?thesis
    unfolding startGame_rooms using assms
    by (auto split: option.splits intro!: all_rooms_upd room_ok_fresh)
qed

lemma ok_answer:
  assumes "all_rooms room_ok (rooms s)"
  shows "all_rooms room_ok (rooms (answer sid msg toLowerCase s))"
  unfolding answer_rooms using assms
  by (auto split: option.splits intro!: all_rooms_upd room_ok_score intro: room_okD)

lemma ok_disconnect:
  assumes "all_rooms room_ok (rooms s)"
  shows "all_rooms room_ok (rooms (disconnect sid s))"
  unfolding disconnect_rooms using assms
  by (auto split: option.splits
      intro!: all_rooms_upd all_rooms_del room_ok_del_inactive room_ok_del_player
      intro: room_okD)

lemma ok_fire:
  assumes "all_rooms room_ok (rooms s)"
  shows "all_rooms room_ok (rooms (fire h rnd s))"
proof -
  have c: "category_own room" if "rooms s roomId = Some room" for roomId room
    using room_okD [OF assms that] by (rule room_ok_own)
  have a: "room_ok (room\<lparr>roundActive := False\<rparr>)" if "rooms s roomId = Some room" for roomId room
    using c [OF that] by (rule room_ok_inactive)
  have b: "room_ok (startRound_room rnd (nextTimer s) room)"
    if "rooms s roomId = Some room" "players room \<noteq> []" for roomId room
    using c [OF that(1)] that(2) by (rule room_ok_startRound_room)
  show ?thesis
    unfolding fire_rooms using assms a b
    by (auto split: option.splits callback.splits intro!: all_rooms_upd)
qed


lemma ok_getOrCreate:
  "all_rooms room_ok (rooms s) \<Longrightarrow> all_rooms room_ok (rooms (snd (getOrCreateRoom roomId s)))"
  unfolding getOrCreateRoom_rooms
  by (auto split: option.splits intro!: all_rooms_upd room_ok_fresh)

lemma getOrCreateRoom_other:
  "p \<noteq> roomId \<Longrightarrow> rooms (snd (getOrCreateRoom roomId s)) p = rooms s p"
  by (simp add: getOrCreateRoom_rooms split: option.splits)

lemma ok_joinRoom:
  assumes inv: "all_rooms room_ok (rooms s)"
    and nm: "\<not> moves_active_drawer s (OnJoinRoom sid roomId nick rnd)"
  shows "all_rooms room_ok (rooms (joinRoom sid roomId nick rnd s))"
proof -
  let ?t = "join_target roomId rnd"
  let ?s1 = "snd (getOrCreateRoom ?t s)"
  let ?R2 = "rooms (join_cleanup sid ?s1)"
  let ?jp = "join_player sid nick"
  have i1: "all_rooms room_ok (rooms ?s1)" using inv by (rule ok_getOrCreate)
  obtain base where base: "rooms ?s1 ?t = Some base"
    using getOrCreateRoom_registered [of ?t s] by blast
  have okb: "room_ok base" using i1 base by (rule room_okD)
  consider (same) "socketRoomMap s sid = Some ?t" "truthy ?t"
    | (other) p pr where "socketRoomMap s sid = Some p" "truthy p" "p \<noteq> ?t" "rooms ?s1 p = Some pr"
    | (none) "?R2 = rooms ?s1"
  proof (cases "socketRoomMap s sid")
    case None
    then have "?R2 = rooms ?s1" by (simp add: join_cleanup_rooms_eq)
    then show ?thesis by (rule that(3))
  next
    case (Some p)
    show ?thesis
    proof (cases "truthy p")
      case False
      with Some have "?R2 = rooms ?s1" by (simp add: join_cleanup_rooms_eq)
      then show ?thesis by (rule that(3))
    next
      case True
      show ?thesis
      proof (cases "p = ?t")
        case eq: True
        with Some True show ?thesis by (intro that(1)) simp_all
      next
        case ne: False
        show ?thesis
        proof (cases "rooms ?s1 p")
          case None
          with Some True have "?R2 = rooms ?s1" by (simp add: join_cleanup_rooms_eq)
          then show ?thesis by (rule that(3))
        next
          case r: (Some pr)
          from Some True ne r show ?thesis by (rule that(2))
        qed
      qed
    qed
  qed
  then show ?thesis
  proof cases
    case same
    then have "?R2 = (rooms ?s1)(?t \<mapsto> base\<lparr>players := obj_delete sid (players base)\<rparr>)"
      using base by (simp add: join_cleanup_rooms_eq)
    then have "rooms (joinRoom sid roomId nick rnd s) =
               (rooms ?s1)(?t \<mapsto> base\<lparr>players := obj_set sid ?jp (obj_delete sid (players base))\<rparr>)"
      by (simp add: joinRoom_rooms_eq)
    with i1 okb show ?thesis by (simp add: all_rooms_upd room_ok_del_add)
  next
    case (other p pr)
    from other(3,4) have sp: "rooms s p = Some pr" by (simp add: getOrCreateRoom_other)
    with nm other(1,2,3) have "\<not> (roundActive pr \<and> drawerId pr = Some sid)" by simp
    moreover have "room_ok pr" using inv sp by (rule room_okD)
    ultimately have okp: "room_ok (pr\<lparr>players := obj_delete sid (players pr)\<rparr>)"
      by (rule room_ok_del_player [rotated])
    have R2: "?R2 = (rooms ?s1)(p \<mapsto> pr\<lparr>players := obj_delete sid (players pr)\<rparr>)"
      using other by (simp add: join_cleanup_rooms_eq)
    with i1 okp have i2: "all_rooms room_ok ?R2" by (simp add: all_rooms_upd)
    from R2 other(3) base have "?R2 ?t = Some base" by simp
    then have "rooms (joinRoom sid roomId nick rnd s) =
               ?R2(?t \<mapsto> base\<lparr>players := obj_set sid ?jp (players base)\<rparr>)"
      by (simp add: joinRoom_rooms_eq)
    with i2 okb show ?thesis by (simp add: all_rooms_upd room_ok_add_player)
  next
    case none
    with base have "rooms (joinRoom sid roomId nick rnd s) =
               (rooms ?s1)(?t \<mapsto> base\<lparr>players := obj_set sid ?jp (players base)\<rparr>)"
      by (simp add: joinRoom_rooms_eq)
    with i1 okb show ?thesis by (simp add: all_rooms_upd room_ok_add_player)
  qed
qed

lemma all_rooms_frame [simp]:
  "all_rooms P (rooms (draw sid roomId data s)) = all_rooms P (rooms s)"
  "all_rooms P (rooms (clearCanvas sid roomId s)) = all_rooms P (rooms s)"
  "all_rooms P (rooms (chatMessage sid msg s)) = all_rooms P (rooms s)"
  by simp_all

lemma ok_handle:
  assumes "all_rooms room_ok (rooms s)" "\<not> moves_active_drawer s e" "\<not> sets_inherited_category e"
  shows "all_rooms room_ok (rooms (handle e s))"
  using assms
  by (cases e)
     (simp_all add: ok_joinRoom ok_setCategory ok_startGame ok_answer ok_disconnect ok_fire)

lemma ok_run: "all_rooms room_ok (rooms s) \<Longrightarrow> trace_ok es s \<Longrightarrow> all_rooms room_ok (rooms (run es s))"
  by (induction es arbitrary: s) (simp_all add: ok_handle)

subsection \<open>Distinct keys of the roster\<close>

lemma distinct_obj_set: "distinct (obj_keys ps) \<Longrightarrow> distinct (obj_keys (obj_set k v ps))"
proof (induction ps)
  case Nil
  then show ?case by (simp add: obj_keys_def)
next
  case (Cons p ps)
  have "set (obj_keys (obj_set k v ps)) = insert k (set (obj_keys ps))" by (rule keys_obj_set)
  with Cons show ?case by (auto simp: obj_keys_def)
qed

lemma distinct_obj_delete: "distinct (obj_keys ps) \<Longrightarrow> distinct (obj_keys (obj_delete k ps))"
  by (simp add: obj_keys_def obj_delete_def distinct_map_filter)

lemma keys_ok_upd [simp]:
  "keys_ok (room\<lparr>category := c\<rparr>) = keys_ok room"
  "keys_ok (room\<lparr>roundActive := b\<rparr>) = keys_ok room"
  "keys_ok (room\<lparr>round_no := n\<rparr>) = keys_ok room"
  "keys_ok (room\<lparr>currentWord := w\<rparr>) = keys_ok room"
  "keys_ok (room\<lparr>drawerId := d\<rparr>) = keys_ok room"
  "keys_ok (startRound_room rnd h room) = keys_ok room"
  by (simp_all add: keys_ok_def)

lemma keys_ok_fresh: "keys_ok (fresh_room roomId)"
  by (simp add: keys_ok_def fresh_room_def obj_keys_def)

lemma keys_ok_set: "keys_ok room \<Longrightarrow> keys_ok (room\<lparr>players := obj_set sid p (players room)\<rparr>)"
  by (simp add: keys_ok_def distinct_obj_set)

lemma keys_ok_delete: "keys_ok room \<Longrightarrow> keys_ok (room\<lparr>players := obj_delete sid (players room)\<rparr>)"
  by (simp add: keys_ok_def distinct_obj_delete)

lemmas keys_okD = all_roomsD [where P = keys_ok]

lemma keys_getOrCreate:
  "all_rooms keys_ok (rooms s) \<Longrightarrow> all_rooms keys_ok (rooms (snd (getOrCreateRoom roomId s)))"
  unfolding getOrCreateRoom_rooms
  by (auto split: option.splits intro!: all_rooms_upd keys_ok_fresh)

lemma keys_join_cleanup:
  "all_rooms keys_ok (rooms s) \<Longrightarrow> all_rooms keys_ok (rooms (join_cleanup sid s))"
  unfolding join_cleanup_rooms_eq
  by (auto split: option.splits intro!: all_rooms_upd keys_ok_delete intro: keys_okD)

lemma keys_joinRoom:
  assumes "all_rooms keys_ok (rooms s)"
  shows "all_rooms keys_ok (rooms (joinRoom sid roomId nick rnd s))"
proof -
  have "all_rooms keys_ok (rooms (join_cleanup sid (snd (getOrCreateRoom (join_target roomId rnd) s))))"
    using assms by (intro keys_join_cleanup keys_getOrCreate)
  then show ?thesis
    unfolding joinRoom_rooms_eq
    by (auto split: option.splits intro!: all_rooms_upd keys_ok_set intro: keys_okD)
qed

lemma keys_handle:
  assumes "all_rooms keys_ok (rooms s)"
  shows "all_rooms keys_ok (rooms (handle e s))"
proof (cases e)
  case (OnJoinRoom sid roomId nick rnd)
  with assms show ?thesis by (simp add: keys_joinRoom)
next
  case (OnSetCategory sid cat)
  with assms show ?thesis
    by (auto simp: setCategory_rooms split: option.splits intro!: all_rooms_upd intro: keys_okD)
next
  case (OnStartGame sid rnd)
  with assms show ?thesis
    by (auto simp: startGame_rooms split: option.splits
        intro!: all_rooms_upd keys_ok_fresh intro: keys_okD)
next
  case (OnAnswer sid msg toLowerCase)
  with assms show ?thesis
    by (auto simp: answer_rooms split: option.splits
        intro!: all_rooms_upd keys_ok_set intro: keys_okD)
next
  case (OnDisconnect sid)
  with assms show ?thesis
    by (auto simp: disconnect_rooms split: option.splits
        intro!: all_rooms_upd all_rooms_del keys_ok_delete intro: keys_okD)
next
  case (OnTimer h rnd)
  with assms show ?thesis
    by (auto simp: fire_rooms split: option.splits callback.splits
        intro!: all_rooms_upd intro: keys_okD)
qed (use assms in simp_all)

lemma roster_keys_distinct:
  "rooms (run es init) roomId = Some room \<Longrightarrow> distinct (obj_keys (players room))"
proof -
  have "all_rooms keys_ok (rooms (run es s))" if "all_rooms keys_ok (rooms s)" for s
    using that by (induction es arbitrary: s) (simp_all add: keys_handle)
  then have "all_rooms keys_ok (rooms (run es init))"
    by (simp add: init_def all_rooms_empty)
  then show "rooms (run es init) roomId = Some room \<Longrightarrow> distinct (obj_keys (players room))"
    by (auto simp: keys_ok_def dest: keys_okD)
qed

section \<open>States along sample event sequences\<close>

lemma joinRoom_fields:
  "socketRoomMap (joinRoom sid roomId nick rnd s) = (socketRoomMap s)(sid \<mapsto> join_target roomId rnd)"
  "timers (joinRoom sid roomId nick rnd s) = timers s"
  "nextTimer (joinRoom sid roomId nick rnd s) = nextTimer s"
  unfolding joinRoom_unfold Let_def
  by (simp_all add: join_target_def split: option.splits)

lemma setCategory_fields:
  "socketRoomMap (setCategory sid cat s) = socketRoomMap s"
  "timers (setCategory sid cat s) = timers s"
  "nextTimer (setCategory sid cat s) = nextTimer s"
  by (simp_all add: setCategory_def split: option.splits)

lemma startRound_timers_begin:
  assumes "rooms s roomId = Some room" "players room \<noteq> []"
    and "\<not> round_no room + 1 > maxRounds room"
  shows "timers (startRound roomId rnd s) =
           (timers (snd (clearRoomTimers room s)))
             (nextTimer s \<mapsto> HintTimer roomId, Suc (nextTimer s) \<mapsto> RoundTimer roomId)"
    and "nextTimer (startRound roomId rnd s) = Suc (Suc (nextTimer s))"
  by (simp_all add: startRound_next [OF assms] startRound_begin_fields)

lemma startGame_unfold:
  assumes "socketRoomMap s sid = Some roomId" "truthy roomId" "rooms s roomId = Some room"
    and "\<not> roundActive room"
  shows "startGame sid rnd s =
           startRound roomId rnd
             (emit (Emit roomId (SystemMessage game_start_text))
                (set_room roomId (room\<lparr>round_no := 0, currentWord := None, drawerId := None\<rparr>) s))"
  using assms by (simp add: startGame_def getOrCreateRoom_present)

lemma startGame_socketRoomMap [simp]: "socketRoomMap (startGame sid rnd s) = socketRoomMap s"
  by (simp add: startGame_def case_prod_unfold Let_def split: option.splits)

lemma disconnect_socketRoomMap:
  "socketRoomMap s sid = Some roomId \<Longrightarrow> truthy roomId \<Longrightarrow> rooms s roomId = Some room \<Longrightarrow>
   socketRoomMap (disconnect sid s) = (socketRoomMap s)(sid := None)"
  by (simp add: disconnect_def Let_def)

lemma disconnect_last_timers:
  "socketRoomMap s sid = Some roomId \<Longrightarrow> truthy roomId \<Longrightarrow> rooms s roomId = Some room \<Longrightarrow>
   obj_delete sid (players room) = [] \<Longrightarrow>
   timers (disconnect sid s) = timers s \<and> nextTimer (disconnect sid s) = nextTimer s"
  by (simp add: disconnect_def Let_def obj_keys_def)

lemma join_target_r: "join_target room_r rnd = room_r" "join_target room_q rnd = room_q"
  by (simp_all add: join_target_def room_r_def room_q_def trim_def is_space_def truthy_def)

lemma join_player_a: "join_player conn_a conn_a = \<lparr>id_player = conn_a, nickname = conn_a, score = 0\<rparr>"
  "join_player conn_b conn_b = \<lparr>id_player = conn_b, nickname = conn_b, score = 0\<rparr>"
  by (simp_all add: join_player_def conn_a_def conn_b_def trim_def is_space_def truthy_def)

lemma ids_distinct:
  "conn_a \<noteq> conn_b" "room_r \<noteq> room_q" "truthy room_r" "truthy room_q"
  "conn_b \<noteq> conn_a" "room_q \<noteq> room_r"
  by (simp_all add: conn_a_def conn_b_def room_r_def room_q_def truthy_def)

lemma solo_joined_state:
  "rooms solo_joined = [room_r \<mapsto> (fresh_room room_r)\<lparr>players := [(conn_a, join_player conn_a conn_a)]\<rparr>]"
  "socketRoomMap solo_joined = [conn_a \<mapsto> room_r]"
  "timers solo_joined = Map.empty"
  "nextTimer solo_joined = 0"
  by (simp_all add: solo_joined_def joinRoom_rooms_eq joinRoom_fields join_target_r
      join_cleanup_rooms_eq getOrCreateRoom_rooms init_def fresh_room_def)


lemma word_food_0: "getRandomWord (ascii ''food'') 0 = Some [0xC0AC, 0xACFC]"
  by (simp add: getRandomWord_def WORD_POOL_def elem_at_def)

lemma solo_started_rooms: "rooms solo_started = [room_r \<mapsto> started_room]"
  by (simp add: solo_started_def startGame_rooms solo_joined_state ids_distinct
      startRound_room_def fresh_room_def chooseNextDrawerId_def obj_keys_def elem_at_def
      word_food_0 started_room_def)

lemma solo_started_state:
  "socketRoomMap solo_started = [conn_a \<mapsto> room_r]"
  "timers solo_started = [0 \<mapsto> HintTimer room_r, 1 \<mapsto> RoundTimer room_r]"
  "nextTimer solo_started = 2"
proof -
  let ?room = "(fresh_room room_r)\<lparr>players := [(conn_a, join_player conn_a conn_a)]\<rparr>"
  let ?room0 = "?room\<lparr>round_no := 0, currentWord := None, drawerId := None\<rparr>"
  let ?s3 = "emit (Emit room_r (SystemMessage game_start_text)) (set_room room_r ?room0 solo_joined)"
  have u: "solo_started = startRound room_r 0 ?s3"
    unfolding solo_started_def
    by (rule startGame_unfold) (simp_all add: solo_joined_state ids_distinct fresh_room_def)
  have r: "rooms ?s3 room_r = Some ?room0" by simp
  have p: "players ?room0 \<noteq> []" by simp
  have m: "\<not> round_no ?room0 + 1 > maxRounds ?room0" by (simp add: fresh_room_def)
  show "socketRoomMap solo_started = [conn_a \<mapsto> room_r]"
    by (simp add: solo_started_def solo_joined_state)
  show "timers solo_started = [0 \<mapsto> HintTimer room_r, 1 \<mapsto> RoundTimer room_r]"
    unfolding u startRound_timers_begin(1) [OF r p m]
    by (simp add: clearRoomTimers_timers solo_joined_state fresh_room_def)
  show "nextTimer solo_started = 2"
    unfolding u startRound_timers_begin(2) [OF r p m]
    by (simp add: solo_joined_state)
qed

lemma duo_state:
  "rooms duo = [room_r \<mapsto> started_room\<lparr>players :=
       [(conn_a, join_player conn_a conn_a), (conn_b, join_player conn_b conn_b)]\<rparr>]"
  "socketRoomMap duo = [conn_a \<mapsto> room_r, conn_b \<mapsto> room_r]"
  by (simp_all add: duo_def joinRoom_rooms_eq joinRoom_fields join_target_r
      join_cleanup_rooms_eq getOrCreateRoom_rooms solo_started_rooms solo_started_state
      ids_distinct started_room_def)

lemma duo_drawer_disconnects:
  "rooms (disconnect conn_a duo) =
     [room_r \<mapsto> started_room\<lparr>players := [(conn_b, join_player conn_b conn_b)],
                               roundActive := False\<rparr>]"
  by (simp add: disconnect_rooms duo_state ids_distinct obj_delete_def started_room_def)

lemma duo_drawer_moves:
  "rooms (joinRoom conn_a room_q conn_a room_r duo) room_r =
     Some (started_room\<lparr>players := [(conn_b, join_player conn_b conn_b)]\<rparr>)"
  using ids_distinct
  by (simp add: joinRoom_rooms_eq join_target_r join_cleanup_rooms_eq getOrCreateRoom_rooms
      duo_state obj_delete_def started_room_def)

lemma solo_last_disconnects:
  "rooms (disconnect conn_a solo_started) room_r = None"
  "timers (disconnect conn_a solo_started) = [0 \<mapsto> HintTimer room_r, 1 \<mapsto> RoundTimer room_r]"
proof -
  have b: "socketRoomMap solo_started conn_a = Some room_r" "rooms solo_started room_r = Some started_room"
    by (simp_all add: solo_started_state solo_started_rooms)
  have d: "obj_delete conn_a (players started_room) = []"
    by (simp add: started_room_def obj_delete_def)
  show "rooms (disconnect conn_a solo_started) room_r = None"
    using b d by (simp add: disconnect_rooms ids_distinct)
  show "timers (disconnect conn_a solo_started) = [0 \<mapsto> HintTimer room_r, 1 \<mapsto> RoundTimer room_r]"
    using disconnect_last_timers [OF b(1) ids_distinct(3) b(2) d] by (simp add: solo_started_state)
qed

section \<open>A finished game stays finished\<close>

lemma game_over_upd [simp]:
  "game_over_room (room\<lparr>players := ps\<rparr>) = game_over_room room"
  "game_over_room (room\<lparr>category := c\<rparr>) = game_over_room room"
  by (simp_all add: game_over_room_def)

lemma game_over_startRound_room:
  "game_over_room room \<Longrightarrow> game_over_room (startRound_room rnd h room)"
  by (simp add: game_over_room_def startRound_room_def Let_def)

lemma game_over_end: "game_over_room room \<Longrightarrow> game_over_room (room\<lparr>roundActive := False\<rparr>)"
  by (simp add: game_over_room_def)

lemma players_upd_twice:
  "q = r\<lparr>players := ps\<rparr> \<Longrightarrow> q\<lparr>players := X\<rparr> = r\<lparr>players := X\<rparr>"
  by simp

lemma joinRoom_room_fields:
  assumes "rooms s rid = Some r" "rooms (joinRoom sid roomId nick rnd s) rid = Some r'"
  shows "r' = r\<lparr>players := players r'\<rparr>"
proof -
  let ?t = "join_target roomId rnd"
  let ?s1 = "snd (getOrCreateRoom ?t s)"
  have a: "rooms ?s1 rid = Some r"
    using assms(1) by (auto simp: getOrCreateRoom_rooms split: option.splits)
  have "\<exists>q. rooms (join_cleanup sid ?s1) rid = Some q \<and> q = r\<lparr>players := players q\<rparr>"
    using a by (simp add: join_cleanup_rooms)
  then obtain q where q: "rooms (join_cleanup sid ?s1) rid = Some q" "q = r\<lparr>players := players q\<rparr>"
    by blast
  show ?thesis
  proof (cases "rid = ?t")
    case True
    with q(1) assms(2) have "r' = q\<lparr>players := obj_set sid (join_player sid nick) (players q)\<rparr>"
      by (simp add: joinRoom_rooms_eq)
    then have "r' = r\<lparr>players := obj_set sid (join_player sid nick) (players q)\<rparr>"
      using players_upd_twice [OF q(2)] by simp
    then show ?thesis by simp
  next
    case False
    with q(1) assms(2) have "r' = q"
      by (simp add: joinRoom_rooms_eq split: option.splits)
    with q(2) show ?thesis by simp
  qed
qed


lemma over_joinRoom:
  assumes "rooms s rid = Some r" "game_over_room r"
    and "rooms (joinRoom sid roomId nick rnd s) rid = Some r'"
  shows "game_over_room r'"
proof -
  have e: "r' = r\<lparr>players := players r'\<rparr>" using assms(1,3) by (rule joinRoom_room_fields)
  show ?thesis by (subst e) (simp add: assms(2))
qed

lemma over_setCategory:
  "rooms s rid = Some r \<Longrightarrow> game_over_room r \<Longrightarrow> rooms (setCategory sid cat s) rid = Some r' \<Longrightarrow>
   game_over_room r'"
  by (auto simp: setCategory_rooms split: option.splits if_splits)

lemma over_answer:
  "rooms s rid = Some r \<Longrightarrow> game_over_room r \<Longrightarrow> rooms (answer sid msg toLowerCase s) rid = Some r' \<Longrightarrow>
   game_over_room r'"
  by (auto simp: answer_rooms game_over_room_def split: option.splits if_splits)

lemma over_disconnect:
  "rooms s rid = Some r \<Longrightarrow> game_over_room r \<Longrightarrow> rooms (disconnect sid s) rid = Some r' \<Longrightarrow>
   game_over_room r'"
  by (auto simp: disconnect_rooms game_over_room_def split: option.splits if_splits)

lemma over_fire:
  "rooms s rid = Some r \<Longrightarrow> game_over_room r \<Longrightarrow> rooms (fire h rnd s) rid = Some r' \<Longrightarrow>
   game_over_room r'"
  by (auto simp: fire_rooms game_over_startRound_room game_over_end
      split: option.splits if_splits callback.splits)

lemma over_handle:
  assumes "\<not> is_startGame e" "rooms s rid = Some r" "game_over_room r"
    and "rooms (handle e s) rid = Some r'"
  shows "game_over_room r'"
  using assms
  by (cases e)
     (auto elim: over_joinRoom over_setCategory over_answer over_disconnect over_fire)

lemma over_run:
  assumes "\<forall>e \<in> set es. \<not> is_startGame e" "room_kept rid es s"
    and "rooms s rid = Some r" "game_over_room r"
  shows "\<exists>r'. rooms (run es s) rid = Some r' \<and> game_over_room r'"
  using assms
proof (induction es arbitrary: s r)
  case Nil
  then show ?case by simp
next
  case (Cons e es)
  from Cons.prems(2) have k: "room_kept rid es (handle e s)" by simp
  then have "rooms (handle e s) rid \<noteq> None" by (cases es) simp_all
  then obtain r1 where r1: "rooms (handle e s) rid = Some r1" by blast
  from Cons.prems(1) have "\<not> is_startGame e" by simp
  then have "game_over_room r1" using Cons.prems(3,4) r1 by (rule over_handle)
  with Cons.IH [OF _ k r1] Cons.prems(1) show ?case by simp
qed

section \<open>The end of the game\<close>

text \<open>
  Claim C7. \<open>startRound\<close> on a registered room with at least one player, when the
  incremented round counter exceeds \<open>maxRounds\<close>: the room is stored with the counter
  incremented, \<open>roundActive\<close> false, word and drawer cleared and both timer handles
  null; \<open>gameEnded\<close> with the roster (and so the scores), \<open>clearCanvas\<close>, an empty
  hint and the room state are broadcast, in this order; the pending timers are those
  of before without the two handles of the room, and no handle is allocated. After
  that, whatever events other than \<open>startGame\<close> are handled (timers included), the
  room is not in an active round for as long as it stays registered.
\<close>

theorem startRound_game_over:
  assumes "rooms s roomId = Some room" and "players room \<noteq> []"
    and "maxRounds room < round_no room + 1"
  shows "rooms (startRound roomId rnd s) =
           (rooms s)(roomId \<mapsto> room\<lparr>timerId := None, hintTimerId := None,
              round_no := round_no room + 1, roundActive := False, currentWord := None,
              drawerId := None\<rparr>)
       \<and> outbox (startRound roomId rnd s) =
           outbox s @
           [Emit roomId (GameEnded (map snd (players room))),
            Emit roomId ClearCanvas,
            Emit roomId (HintUpdated []),
            Emit roomId (RoomStateMsg (map snd (players room)) None (round_no room + 1)
              (maxRounds room) (category room) False)]
       \<and> timers (startRound roomId rnd s) =
           (\<lambda>h. if timerId room = Some h \<or> hintTimerId room = Some h then None else timers s h)
       \<and> nextTimer (startRound roomId rnd s) = nextTimer s
       \<and> (\<forall>es. (\<forall>e \<in> set es. \<not> is_startGame e) \<and> room_kept roomId es (startRound roomId rnd s) \<longrightarrow>
             map_option roundActive (rooms (run es (startRound roomId rnd s)) roomId) = Some False)"
proof -
  let ?s' = "startRound roomId rnd s"
  let ?room' = "room\<lparr>timerId := None, hintTimerId := None,
              round_no := round_no room + 1, roundActive := False, currentWord := None,
              drawerId := None\<rparr>"
  have u: "?s' = startRound_gameOver roomId
           (room\<lparr>timerId := None, hintTimerId := None, round_no := round_no room + 1\<rparr>)
           (snd (clearRoomTimers room s))"
    using assms by (rule startRound_over)
  have r: "rooms ?s' = (rooms s)(roomId \<mapsto> ?room')"
    unfolding u by (simp add: startRound_gameOver_fields)
  have o: "outbox ?s' = outbox s @
           [Emit roomId (GameEnded (map snd (players room))),
            Emit roomId ClearCanvas,
            Emit roomId (HintUpdated []),
            Emit roomId (RoomStateMsg (map snd (players room)) None (round_no room + 1)
              (maxRounds room) (category room) False)]"
    unfolding u by (simp add: startRound_gameOver_fields)
  have t: "timers ?s' =
           (\<lambda>h. if timerId room = Some h \<or> hintTimerId room = Some h then None else timers s h)"
    unfolding u by (simp add: startRound_gameOver_fields clearRoomTimers_timers)
  have n: "nextTimer ?s' = nextTimer s"
    unfolding u by (simp add: startRound_gameOver_fields)
  have g: "game_over_room ?room'" using assms(3) by (simp add: game_over_room_def)
  have k: "map_option roundActive (rooms (run es ?s') roomId) = Some False"
    if "(\<forall>e \<in> set es. \<not> is_startGame e) \<and> room_kept roomId es ?s'" for es
  proof -
    from r have "rooms ?s' roomId = Some ?room'" by simp
    with that g obtain r' where "rooms (run es ?s') roomId = Some r'" "game_over_room r'"
      using over_run [of es roomId ?s' ?room'] by blast
    then show ?thesis by (simp add: game_over_room_def)
  qed
  from r o t n k show ?thesis by blast
qed

text \<open>A room after round 5 of 5: the next \<open>startRound\<close> ends the game, and chat and answers leave it ended.\<close>

theorem startRound_game_over_witness:
  "rooms (demo_server finished_room) room_r = Some finished_room
   \<and> players finished_room \<noteq> []
   \<and> maxRounds finished_room < round_no finished_room + 1
   \<and> map_option roundActive (rooms (startRound room_r 0 (demo_server finished_room)) room_r) = Some False
   \<and> map_option round_no (rooms (startRound room_r 0 (demo_server finished_room)) room_r) = Some 6
   \<and> nextTimer (startRound room_r 0 (demo_server finished_room)) = 0
   \<and> map_option roundActive
        (rooms (run [OnChatMessage conn_a conn_a, OnAnswer conn_a conn_a basic_latin_lower]
           (startRound room_r 0 (demo_server finished_room))) room_r) = Some False"
proof -
  let ?s = "demo_server finished_room"
  let ?es = "[OnChatMessage conn_a conn_a, OnAnswer conn_a conn_a basic_latin_lower]"
  have h1: "rooms ?s room_r = Some finished_room"
    by (simp add: demo_server_def finished_room_def demo_room_def)
  have h2: "players finished_room \<noteq> []" by (simp add: finished_room_def demo_room_def)
  have h3: "maxRounds finished_room < round_no finished_room + 1"
    by (simp add: finished_room_def demo_room_def)
  note c = startRound_game_over [OF h1 h2 h3, of 0]
  from c have r: "rooms (startRound room_r 0 ?s) =
           (rooms ?s)(room_r \<mapsto> finished_room\<lparr>timerId := None, hintTimerId := None,
              round_no := round_no finished_room + 1, roundActive := False, currentWord := None,
              drawerId := None\<rparr>)" by blast
  have a: "map_option roundActive (rooms (startRound room_r 0 ?s) room_r) = Some False"
    "map_option round_no (rooms (startRound room_r 0 ?s) room_r) = Some 6"
    unfolding r by (simp_all add: finished_room_def demo_room_def)
  from c have n: "nextTimer (startRound room_r 0 ?s) = 0" by (simp add: demo_server_def)
  have "socketRoomMap (startRound room_r 0 ?s) conn_a = Some room_r"
    by (simp add: demo_server_def finished_room_def demo_room_def obj_keys_def)
  then have kept: "room_kept room_r ?es (startRound room_r 0 ?s)"
    by (simp add: answer_rooms r split: option.splits)
  have ns: "\<forall>e \<in> set ?es. \<not> is_startGame e" by simp
  from c ns kept have "map_option roundActive (rooms (run ?es (startRound room_r 0 ?s)) room_r) = Some False"
    by blast
  with h1 h2 h3 a n show ?thesis by blast
qed


section \<open>Scores\<close>

text \<open>
  Claim C10. In every state reached from the initial state by any sequence of events,
  the score of every player of every room is a non-negative multiple of 10; and every
  event handler preserves this property of the registry.
\<close>

theorem scores_invariant:
  "(\<forall>roomId room sid p.
      rooms (run es init) roomId = Some room \<and> obj_get (players room) sid = Some p \<longrightarrow>
      0 \<le> score p \<and> score p mod 10 = 0)
   \<and> (\<forall>e s. all_rooms scores_ok (rooms s) \<longrightarrow> all_rooms scores_ok (rooms (handle e s)))"
proof (intro conjI allI impI)
  have i: "all_rooms scores_ok (rooms (run es init))"
    by (rule scores_run) (simp add: init_def all_rooms_empty)
  show "0 \<le> score p" and "score p mod 10 = 0"
    if h: "rooms (run es init) roomId = Some room \<and> obj_get (players room) sid = Some p"
    for roomId room sid p
  proof -
    from h have "scores_ok room" using i by (auto intro: all_roomsD)
    moreover from h have "(sid, p) \<in> set (players room)" by (auto intro: obj_get_mem)
    ultimately have "score_ok p" by (auto simp: scores_ok_iff)
    then show "0 \<le> score p" and "score p mod 10 = 0" by (simp_all add: score_ok_def)
  qed
  show "all_rooms scores_ok (rooms (handle e s))" if "all_rooms scores_ok (rooms s)" for e s
    using that by (rule scores_handle)
qed

text \<open>\<open>b\<close> guesses the word of the round that \<open>a\<close> draws: the score of \<open>b\<close> is 10.\<close>

lemma duo_guess:
  "rooms (answer conn_b [0xC0AC, 0xACFC] basic_latin_lower duo) room_r =
     Some (started_room\<lparr>players :=
       [(conn_a, join_player conn_a conn_a), (conn_b, (join_player conn_b conn_b)\<lparr>score := 10\<rparr>)],
       roundActive := False\<rparr>)"
proof -
  have t: "trim [0xC0AC, 0xACFC] = [0xC0AC, 0xACFC]"
    by (simp add: trim_def is_space_def)
  have w: "truthy [0xC0AC, 0xACFC]" by (simp add: truthy_def)
  show ?thesis
    by (simp add: answer_rooms duo_state ids_distinct t w obj_get_def truthy_opt_def
        started_room_def join_player_a)
qed

theorem scores_invariant_witness:
  "rooms (run [OnJoinRoom conn_a room_r conn_a room_q, OnStartGame conn_a 0,
               OnJoinRoom conn_b room_r conn_b room_q, OnAnswer conn_b [0xC0AC, 0xACFC] basic_latin_lower] init) room_r
     = Some (started_room\<lparr>players :=
         [(conn_a, join_player conn_a conn_a), (conn_b, (join_player conn_b conn_b)\<lparr>score := 10\<rparr>)],
         roundActive := False\<rparr>)
   \<and> obj_get (players (started_room\<lparr>players :=
         [(conn_a, join_player conn_a conn_a), (conn_b, (join_player conn_b conn_b)\<lparr>score := 10\<rparr>)],
         roundActive := False\<rparr>)) conn_b = Some ((join_player conn_b conn_b)\<lparr>score := 10\<rparr>)
   \<and> 0 \<le> score ((join_player conn_b conn_b)\<lparr>score := 10\<rparr>)
   \<and> score ((join_player conn_b conn_b)\<lparr>score := 10\<rparr>) mod 10 = 0"
proof -
  let ?es = "[OnJoinRoom conn_a room_r conn_a room_q, OnStartGame conn_a 0,
               OnJoinRoom conn_b room_r conn_b room_q, OnAnswer conn_b [0xC0AC, 0xACFC] basic_latin_lower]"
  let ?room = "started_room\<lparr>players :=
         [(conn_a, join_player conn_a conn_a), (conn_b, (join_player conn_b conn_b)\<lparr>score := 10\<rparr>)],
         roundActive := False\<rparr>"
  have e: "run ?es init = answer conn_b [0xC0AC, 0xACFC] basic_latin_lower duo"
    by (simp add: duo_def solo_started_def solo_joined_def)
  have h1: "rooms (run ?es init) room_r = Some ?room"
    unfolding e by (rule duo_guess)
  have h2: "obj_get (players ?room) conn_b = Some ((join_player conn_b conn_b)\<lparr>score := 10\<rparr>)"
    by (simp add: obj_get_def ids_distinct)
  from scores_invariant [of ?es] h1 h2
  have "0 \<le> score ((join_player conn_b conn_b)\<lparr>score := 10\<rparr>)
      \<and> score ((join_player conn_b conn_b)\<lparr>score := 10\<rparr>) mod 10 = 0"
    by blast
  with h1 h2 show ?thesis by blast
qed

section \<open>Active rounds\<close>

text \<open>
  Claim C1, amended. In every state reached by a sequence of events in which no
  \<open>joinRoom\<close> moves the drawer of an active round into a different room and no
  \<open>setCategory\<close> names a property that the word table inherits, every room with
  \<open>roundActive\<close> true has \<open>currentWord\<close> set and \<open>drawerId\<close> set to a key of
  \<open>players\<close>. Once the round is inactive, \<open>drawerId\<close> may keep the identifier of a
  player who has left: \<open>chooseNextDrawerId\<close> takes such a previous drawer as absent
  and wraps to the first player.
\<close>

theorem round_invariant:
  assumes "trace_ok es init" and "rooms (run es init) roomId = Some room" and "roundActive room"
  shows "currentWord room \<noteq> None \<and> drawerId room \<in> Some ` set (obj_keys (players room))"
proof -
  have "all_rooms room_ok (rooms (run es init))"
    using _ assms(1) by (rule ok_run) (simp add: init_def all_rooms_empty)
  then have "room_ok room" using assms(2) by (rule room_okD)
  with assms(3) show ?thesis by (simp add: room_ok_def round_consistent_def)
qed

theorem round_invariant_witness:
  "trace_ok [OnJoinRoom conn_a room_r conn_a room_q, OnStartGame conn_a 0] init
   \<and> rooms (run [OnJoinRoom conn_a room_r conn_a room_q, OnStartGame conn_a 0] init) room_r
       = Some started_room
   \<and> roundActive started_room
   \<and> currentWord started_room \<noteq> None
   \<and> drawerId started_room \<in> Some ` set (obj_keys (players started_room))"
proof -
  let ?es = "[OnJoinRoom conn_a room_r conn_a room_q, OnStartGame conn_a 0]"
  have h1: "trace_ok ?es init" by (simp add: init_def)
  have "run ?es init = solo_started" by (simp add: solo_started_def solo_joined_def)
  then have h2: "rooms (run ?es init) room_r = Some started_room"
    by (simp add: solo_started_rooms)
  have h3: "roundActive started_room" by (simp add: started_room_def)
  from round_invariant [OF h1 h2 h3] h1 h2 h3 show ?thesis by blast
qed

lemma constructor_inherited: "cat_constructor \<in> set object_prototype_keys" "truthy cat_constructor"
  by (simp_all add: cat_constructor_def object_prototype_keys_def truthy_def ascii_def)

lemma word_constructor: "getRandomWord cat_constructor rnd = None"
  by (simp add: getRandomWord_def WORD_POOL_def cat_constructor_def
      object_prototype_keys_def ascii_def)

lemma inherited_category_round:
  "rooms (startGame conn_a 0 (setCategory conn_a cat_constructor solo_joined)) room_r =
     Some (started_room\<lparr>category := cat_constructor, currentWord := None\<rparr>)"
  by (simp add: startGame_rooms setCategory_rooms setCategory_fields solo_joined_state
      ids_distinct constructor_inherited startRound_room_def fresh_room_def
      chooseNextDrawerId_def obj_keys_def elem_at_def word_constructor started_room_def)

text \<open>
  Claim C1 as stated fails in three reachable states. After the drawer disconnects
  from a room of two, the round is ended and \<open>drawerId\<close> still names the drawer, who
  is no longer in \<open>players\<close>. After the drawer joins another room, the room left
  behind is still in an active round and names as drawer a player it does not hold.
  After \<open>setCategory\<close> to \<open>constructor\<close> and \<open>startGame\<close>, the round is active and
  no word is set.
\<close>

theorem round_invariant_counterexample:
  "map_option drawerId
     (rooms (run [OnJoinRoom conn_a room_r conn_a room_q, OnStartGame conn_a 0,
                  OnJoinRoom conn_b room_r conn_b room_q, OnDisconnect conn_a] init) room_r)
     = Some (Some conn_a)
   \<and> map_option (obj_keys \<circ> players)
     (rooms (run [OnJoinRoom conn_a room_r conn_a room_q, OnStartGame conn_a 0,
                  OnJoinRoom conn_b room_r conn_b room_q, OnDisconnect conn_a] init) room_r)
     = Some [conn_b]
   \<and> map_option roundActive
     (rooms (run [OnJoinRoom conn_a room_r conn_a room_q, OnStartGame conn_a 0,
                  OnJoinRoom conn_b room_r conn_b room_q,
                  OnJoinRoom conn_a room_q conn_a room_r] init) room_r)
     = Some True
   \<and> map_option drawerId
     (rooms (run [OnJoinRoom conn_a room_r conn_a room_q, OnStartGame conn_a 0,
                  OnJoinRoom conn_b room_r conn_b room_q,
                  OnJoinRoom conn_a room_q conn_a room_r] init) room_r)
     = Some (Some conn_a)
   \<and> map_option (obj_keys \<circ> players)
     (rooms (run [OnJoinRoom conn_a room_r conn_a room_q, OnStartGame conn_a 0,
                  OnJoinRoom conn_b room_r conn_b room_q,
                  OnJoinRoom conn_a room_q conn_a room_r] init) room_r)
     = Some [conn_b]
   \<and> map_option roundActive
     (rooms (run [OnJoinRoom conn_a room_r conn_a room_q, OnSetCategory conn_a cat_constructor,
                  OnStartGame conn_a 0] init) room_r)
     = Some True
   \<and> map_option currentWord
     (rooms (run [OnJoinRoom conn_a room_r conn_a room_q, OnSetCategory conn_a cat_constructor,
                  OnStartGame conn_a 0] init) room_r)
     = Some None"
proof -
  have a: "run [OnJoinRoom conn_a room_r conn_a room_q, OnStartGame conn_a 0,
                OnJoinRoom conn_b room_r conn_b room_q, OnDisconnect conn_a] init
           = disconnect conn_a duo"
    by (simp add: duo_def solo_started_def solo_joined_def)
  have b: "run [OnJoinRoom conn_a room_r conn_a room_q, OnStartGame conn_a 0,
                OnJoinRoom conn_b room_r conn_b room_q,
                OnJoinRoom conn_a room_q conn_a room_r] init
           = joinRoom conn_a room_q conn_a room_r duo"
    by (simp add: duo_def solo_started_def solo_joined_def)
  have c: "run [OnJoinRoom conn_a room_r conn_a room_q, OnSetCategory conn_a cat_constructor,
                OnStartGame conn_a 0] init
           = startGame conn_a 0 (setCategory conn_a cat_constructor solo_joined)"
    by (simp add: solo_joined_def)
  show ?thesis
    unfolding a b c duo_drawer_disconnects duo_drawer_moves inherited_category_round
    by (simp add: started_room_def obj_keys_def)
qed


section \<open>The previous room of a join\<close>

text \<open>
  Claim C2 fails on the code. A connection joins room \<open>r\<close> and then room \<open>q\<close>: it
  is bound to \<open>q\<close>, and \<open>r\<close> stays in the registry with no player. Had the connection
  disconnected instead, \<open>r\<close> would have been removed from the registry.
\<close>

theorem joinRoom_keeps_empty_previous_room:
  "map_option players
     (rooms (run [OnJoinRoom conn_a room_r conn_a room_q,
                  OnJoinRoom conn_a room_q conn_a room_r] init) room_r) = Some []
   \<and> socketRoomMap (run [OnJoinRoom conn_a room_r conn_a room_q,
                  OnJoinRoom conn_a room_q conn_a room_r] init) conn_a = Some room_q
   \<and> rooms (run [OnJoinRoom conn_a room_r conn_a room_q, OnDisconnect conn_a] init) room_r = None"
proof -
  have a: "run [OnJoinRoom conn_a room_r conn_a room_q,
                OnJoinRoom conn_a room_q conn_a room_r] init
           = joinRoom conn_a room_q conn_a room_r solo_joined"
    by (simp add: solo_joined_def)
  have b: "run [OnJoinRoom conn_a room_r conn_a room_q, OnDisconnect conn_a] init
           = disconnect conn_a solo_joined"
    by (simp add: solo_joined_def)
  have "rooms (joinRoom conn_a room_q conn_a room_r solo_joined) room_r =
          Some ((fresh_room room_r)\<lparr>players := []\<rparr>)"
    using ids_distinct
    by (simp add: joinRoom_rooms_eq join_target_r join_cleanup_rooms_eq getOrCreateRoom_rooms
        solo_joined_state obj_delete_def)
  moreover have "socketRoomMap (joinRoom conn_a room_q conn_a room_r solo_joined) conn_a = Some room_q"
    by (simp add: joinRoom_fields join_target_r)
  moreover have "rooms (disconnect conn_a solo_joined) room_r = None"
    by (simp add: disconnect_rooms solo_joined_state ids_distinct obj_delete_def)
  ultimately show ?thesis unfolding a b by simp
qed

section \<open>Timers of a removed room\<close>

lemma fire_absent:
  assumes "timers s h = Some cb" "rooms s (callback_room cb) = None"
  shows "fire h rnd s = s\<lparr>timers := (timers s)(h := None)\<rparr>"
  using assms
  by (cases cb)
     (simp_all add: fire_def callback_room_def hintCallback_def roundCallback_def
        startRound_absent)

text \<open>
  Claim C3, amended. When the last player of a room disconnects, the room is removed
  from the registry and the pending timers are exactly those of before: nothing is
  cancelled. A pending callback that fires while the room it names is not registered
  leaves the pending set and changes nothing else: no state, no notification.
\<close>

theorem disconnect_last_player:
  assumes "socketRoomMap s sid = Some roomId" and "truthy roomId"
    and "rooms s roomId = Some room" and "obj_delete sid (players room) = []"
  shows "rooms (disconnect sid s) roomId = None
       \<and> timers (disconnect sid s) = timers s
       \<and> (\<forall>h rnd s' cb. timers s' h = Some cb \<and> rooms s' (callback_room cb) = None \<longrightarrow>
             fire h rnd s' = s'\<lparr>timers := (timers s')(h := None)\<rparr>)"
proof (intro conjI allI impI)
  show "rooms (disconnect sid s) roomId = None"
    using assms by (simp add: disconnect_rooms)
  show "timers (disconnect sid s) = timers s"
    using disconnect_last_timers [OF assms] by simp
  show "fire h rnd s' = s'\<lparr>timers := (timers s')(h := None)\<rparr>"
    if "timers s' h = Some cb \<and> rooms s' (callback_room cb) = None" for h rnd s' cb
    using that by (auto intro: fire_absent)
qed

theorem disconnect_last_player_witness:
  "socketRoomMap solo_started conn_a = Some room_r
   \<and> truthy room_r
   \<and> rooms solo_started room_r = Some started_room
   \<and> obj_delete conn_a (players started_room) = []
   \<and> rooms (disconnect conn_a solo_started) room_r = None
   \<and> timers (disconnect conn_a solo_started) = timers solo_started
   \<and> timers (disconnect conn_a solo_started) 1 = Some (RoundTimer room_r)
   \<and> fire 1 0 (disconnect conn_a solo_started) =
       (disconnect conn_a solo_started)\<lparr>timers := (timers (disconnect conn_a solo_started))(1 := None)\<rparr>"
proof -
  have h1: "socketRoomMap solo_started conn_a = Some room_r" by (simp add: solo_started_state)
  have h2: "truthy room_r" by (rule ids_distinct)
  have h3: "rooms solo_started room_r = Some started_room" by (simp add: solo_started_rooms)
  have h4: "obj_delete conn_a (players started_room) = []"
    by (simp add: started_room_def obj_delete_def)
  note c = disconnect_last_player [OF h1 h2 h3 h4]
  from c have c1: "rooms (disconnect conn_a solo_started) room_r = None" by blast
  from c have c2: "timers (disconnect conn_a solo_started) = timers solo_started" by blast
  have t: "timers (disconnect conn_a solo_started) 1 = Some (RoundTimer room_r)"
    unfolding c2 by (simp add: solo_started_state)
  have "rooms (disconnect conn_a solo_started) (callback_room (RoundTimer room_r)) = None"
    using c1 by (simp add: callback_room_def)
  with c t have "fire 1 0 (disconnect conn_a solo_started) =
       (disconnect conn_a solo_started)\<lparr>timers := (timers (disconnect conn_a solo_started))(1 := None)\<rparr>"
    by blast
  with h1 h2 h3 h4 c1 c2 t show ?thesis by blast
qed

text \<open>
  Claim C3 as stated fails: after \<open>a\<close> joins \<open>r\<close>, starts the game and disconnects,
  the room is gone and its hint and round-timeout callbacks are still pending.
\<close>

theorem room_removal_counterexample:
  "rooms (run [OnJoinRoom conn_a room_r conn_a room_q, OnStartGame conn_a 0,
               OnDisconnect conn_a] init) room_r = None
   \<and> timers (run [OnJoinRoom conn_a room_r conn_a room_q, OnStartGame conn_a 0,
               OnDisconnect conn_a] init) 0 = Some (HintTimer room_r)
   \<and> timers (run [OnJoinRoom conn_a room_r conn_a room_q, OnStartGame conn_a 0,
               OnDisconnect conn_a] init) 1 = Some (RoundTimer room_r)"
proof -
  have "run [OnJoinRoom conn_a room_r conn_a room_q, OnStartGame conn_a 0,
               OnDisconnect conn_a] init = disconnect conn_a solo_started"
    by (simp add: solo_started_def solo_joined_def)
  then show ?thesis by (simp add: solo_last_disconnects)
qed

section \<open>Dangling references\<close>




section \<open>Blank answers\<close>


section \<open>Rounds of a game\<close>





lemma hintCallback_fields [simp]:
  "timers (hintCallback roomId s) = timers s"
  "nextTimer (hintCallback roomId s) = nextTimer s"
  by (simp_all add: hintCallback_def split: option.splits)
























end
